theory Spec2Isabelle
  imports Main "HOL-Library.Word" "HOL-Library.Sublist"
begin

section \<open>deltafs-plfsdir-runner: a shallow embedding\<close>

text \<open>
  The program under study is the second (full) version of
  \<^verbatim>\<open>deltafs-plfsdir-runner.cc\<close>: a per-rank MPI process that parses its options,
  arms an alarm, builds a plfsdir configuration string, opens a plfsdir and writes
  \<^verbatim>\<open>g.nepochs\<close> epochs of \<^verbatim>\<open>g.nkeys\<close> keys each.

  C \<^verbatim>\<open>int\<close> is a 32-bit word read in two's complement (\<open>sint\<close>, \<open><s\<close>, \<open>\<le>s\<close>).
  Calls into libc, MPI and deltafs are recorded, in order, in a trace; what they return is
  supplied by the environment (\<open>world\<close>) as a function of the calls made before.
  Output to stdout (\<^verbatim>\<open>printopts\<close>, \<^verbatim>\<open>info\<close>) is not recorded.
\<close>

type_synonym cint = "32 word"

subsection \<open>printf conversions and snprintf\<close>

definition xdigit :: "nat \<Rightarrow> char" where
  "xdigit d = ''0123456789abcdef'' ! d"

text \<open>The digits of \<open>n\<close> in base \<open>b\<close>, most significant first, without padding.\<close>

fun utoa :: "nat \<Rightarrow> nat \<Rightarrow> string" where
  "utoa b n = (if n < b \<or> b < 2 then [xdigit n] else utoa b (n div b) @ [xdigit (n mod b)])"

declare utoa.simps [simp del]

text \<open>\<^verbatim>\<open>%d\<close> of an \<^verbatim>\<open>int\<close>.\<close>

definition fmt_d :: "cint \<Rightarrow> string" where
  "fmt_d x = (if sint x < 0 then CHR ''-'' # utoa 10 (nat (- sint x)) else utoa 10 (nat (sint x)))"

text \<open>\<^verbatim>\<open>%08x\<close>: the argument read as \<^verbatim>\<open>unsigned int\<close>, in hexadecimal, padded with
  zeros on the left to at least eight digits.\<close>

definition fmt_08x :: "cint \<Rightarrow> string" where
  "fmt_08x x = (let s = utoa 16 (unat x) in replicate (8 - length s) CHR ''0'' @ s)"

text \<open>\<^verbatim>\<open>snprintf(buf, sz, ...)\<close> where the conversions render to \<open>s\<close>: the characters
  stored in front of the terminating NUL (at most \<open>sz - 1\<close> of them) and the return value,
  the length of the whole rendering whether it fitted or not.\<close>

definition snprintf :: "nat \<Rightarrow> string \<Rightarrow> string \<times> nat" where
  "snprintf sz s = (take (sz - 1) s, length s)"

text \<open>\<^verbatim>\<open>snprintf(buf + off, sz, ...)\<close> on a buffer holding the C string \<open>buf\<close>: with
  \<open>sz = 0\<close> nothing is stored; bytes stored behind the terminating NUL of \<open>buf\<close> do not
  change the string.\<close>

definition snprintf_at :: "string \<Rightarrow> nat \<Rightarrow> nat \<Rightarrow> string \<Rightarrow> string" where
  "snprintf_at buf off sz s =
     (if sz = 0 \<or> length buf < off then buf else take off buf @ fst (snprintf sz s))"

subsection \<open>atoi\<close>

definition isspace :: "char \<Rightarrow> bool" where
  "isspace c = (c = CHR '' '' \<or> (9 \<le> (of_char c :: nat) \<and> (of_char c :: nat) \<le> 13))"

definition isdigit :: "char \<Rightarrow> bool" where
  "isdigit c = (48 \<le> (of_char c :: nat) \<and> (of_char c :: nat) \<le> 57)"

definition digits_value :: "string \<Rightarrow> nat" where
  "digits_value s = foldl (\<lambda>a c. 10 * a + (of_char c - 48)) 0 s"

text \<open>\<^verbatim>\<open>atoi(s)\<close> as \<^verbatim>\<open>(int) strtol(s, NULL, 10)\<close> on an LP64 system: leading white
  space, an optional sign, the longest run of decimal digits; \<^verbatim>\<open>strtol\<close> saturates at
  the range of \<^verbatim>\<open>long\<close> and the conversion to \<^verbatim>\<open>int\<close> keeps the low 32 bits.\<close>

definition atoi :: "string \<Rightarrow> cint" where
  "atoi s =
     (let s1 = dropWhile isspace s;
          neg = (s1 \<noteq> [] \<and> hd s1 = CHR ''-'');
          s2 = (if s1 \<noteq> [] \<and> (hd s1 = CHR ''-'' \<or> hd s1 = CHR ''+'') then tl s1 else s1);
          n = int (digits_value (takeWhile isdigit s2));
          l = (if neg then max (- (2 ^ 63)) (- n) else min (2 ^ 63 - 1) n)
      in word_of_int l)"

subsection \<open>Globals, external calls and the environment\<close>

text \<open>\<^verbatim>\<open>struct gs\<close>; the field \<^verbatim>\<open>v\<close> is called \<open>verbose\<close> here.\<close>

record gs =
  bg :: cint
  bbos :: cint
  bbosport :: cint
  bboshostname :: string
  dirname :: string
  myrank :: cint
  commsz :: cint
  nepochs :: cint
  nkeys :: cint
  filterbits :: cint
  keysz :: cint
  valsz :: cint
  iosz :: cint
  logrotation :: cint
  timeout :: cint
  verbose :: cint

text \<open>The calls the program makes outside itself, with the arguments that vary. The
  plfsdir handle, the only one there is, is left out of the deltafs calls.\<close>

datatype call =
    MPI_Init
  | MPI_Comm_rank
  | MPI_Comm_size
  | MPI_Barrier
  | MPI_Finalize
  | Signal_SIGALRM
  | Alarm cint
  | Deltafs_tp_init cint
  | Deltafs_env_init string string
  | Plfsdir_create_handle string
  | Plfsdir_set_err_printer
  | Plfsdir_set_thread_pool
  | Plfsdir_set_env
  | Plfsdir_open string
  | Plfsdir_append string cint string
  | Plfsdir_epoch_flush cint
  | Plfsdir_finish
  | Plfsdir_free_handle

text \<open>The environment: \<open>ret w tr c\<close> is what call \<open>c\<close> returns after the calls \<open>tr\<close>
  (an \<^verbatim>\<open>int\<close> status, or a handle with 0 for \<^verbatim>\<open>NULL\<close>); \<open>mpi_rank\<close> and \<open>mpi_size\<close>
  are what \<^verbatim>\<open>MPI_Comm_rank\<close> and \<^verbatim>\<open>MPI_Comm_size\<close> store; \<open>ndebug\<close> says whether the
  program was compiled with \<^verbatim>\<open>NDEBUG\<close> (the default Release build), which removes
  the \<^verbatim>\<open>assert\<close>s.\<close>

record world =
  ret :: "call list \<Rightarrow> call \<Rightarrow> cint"
  mpi_rank :: cint
  mpi_size :: cint
  ndebug :: bool

datatype diag = Usage_msg "string option" | Error_msg string | Alarm_msg

text \<open>How a process ends: \<^verbatim>\<open>exit(status)\<close>, after a diagnostic on stderr if any;
  \<^verbatim>\<open>abort()\<close> from a failed \<^verbatim>\<open>assert\<close> or an uncaught C++ exception; or a store
  outside \<^verbatim>\<open>cf\<close>, where C leaves the behaviour undefined.\<close>

datatype ending = Exited int "diag option" | Aborted | Out_of_bounds

datatype 'a step = Stop ending "call list" | Cont 'a "call list"

type_synonym 'a prog = "call list \<Rightarrow> 'a step"

definition return :: "'a \<Rightarrow> 'a prog" where
  "return x tr = Cont x tr"

definition seq :: "'a prog \<Rightarrow> ('a \<Rightarrow> 'b prog) \<Rightarrow> 'b prog" where
  "seq m f tr = (case m tr of Stop e t \<Rightarrow> Stop e t | Cont x t \<Rightarrow> f x t)"

definition call :: "world \<Rightarrow> call \<Rightarrow> cint prog" where
  "call w c tr = Cont (ret w tr c) (tr @ [c])"

definition trace_of :: "'a step \<Rightarrow> call list" where
  "trace_of s = (case s of Stop e t \<Rightarrow> t | Cont x t \<Rightarrow> t)"

definition returned :: "'a step \<Rightarrow> bool" where
  "returned s = (case s of Stop e t \<Rightarrow> False | Cont x t \<Rightarrow> True)"

subsection \<open>complain, usage, sigalarm\<close>

text \<open>Each prints to stderr and calls \<^verbatim>\<open>exit(1)\<close>. \<open>complain\<close> keeps the format string.\<close>

definition complain :: "string \<Rightarrow> 'a prog" where
  "complain format tr = Stop (Exited 1 (Some (Error_msg format))) tr"

definition usage :: "string option \<Rightarrow> 'a prog" where
  "usage msg tr = Stop (Exited 1 (Some (Usage_msg msg))) tr"


definition abort :: "'a prog" where
  "abort tr = Stop Aborted tr"

subsection \<open>mkbbos and mkconf\<close>

definition mkbbos :: "world \<Rightarrow> gs \<Rightarrow> cint \<Rightarrow> cint prog" where
  "mkbbos w g env =
     (if bbos g = 0 \<or> env \<noteq> 0 then return env
      else
        let lo = fst (snprintf 50 ''bmi+tcp'');
            remote = fst (snprintf 50
                       (''bmi+tcp://'' @ bboshostname g @ '':'' @ fmt_d (bbosport g)))
        in seq (call w (Deltafs_env_init lo remote))
             (\<lambda>env'. if env' = 0 then complain ''fail to init bbos env'' else return env'))"

text \<open>The renderings of the eleven \<^verbatim>\<open>snprintf\<close> calls of \<^verbatim>\<open>mkconf\<close>, in order.\<close>

definition conf_pieces :: "gs \<Rightarrow> string list" where
  "conf_pieces g =
     [''rank='' @ fmt_d (myrank g),
      ''&tail_padding=1&block_padding=1'',
      ''&data_buffer='' @ fmt_d (iosz g),
      ''&min_data_buffer='' @ fmt_d (iosz g),
      ''&index_buffer='' @ fmt_d (iosz g),
      ''&min_index_buffer='' @ fmt_d (iosz g),
      ''&key_size='' @ fmt_d (keysz g),
      ''&value_size='' @ fmt_d (valsz g),
      ''&bf_bits_per_key='' @ fmt_d (filterbits g),
      ''&epoch_log_rotation='' @ fmt_d (logrotation g),
      ''&lg_parts='' @ fmt_d 0]"

text \<open>One \<^verbatim>\<open>n += snprintf(cf + n, sizeof(cf) - n, ...)\<close> on \<^verbatim>\<open>char cf[500]\<close>: the
  state is the C string in \<^verbatim>\<open>cf\<close> and \<^verbatim>\<open>n\<close>. With \<open>500 < n\<close> the size wraps around
  as a \<^verbatim>\<open>size_t\<close> and the store is outside the array.\<close>

definition cf_snprintf :: "string \<times> nat \<Rightarrow> string \<Rightarrow> ending + string \<times> nat" where
  "cf_snprintf st s =
     (case st of (cf, n) \<Rightarrow>
        if 500 < n then Inl Out_of_bounds
        else Inr (snprintf_at cf n (500 - n) s, n + snd (snprintf (500 - n) s)))"

fun cf_chain :: "string list \<Rightarrow> string \<times> nat \<Rightarrow> ending + string \<times> nat" where
  "cf_chain [] st = Inr st"
| "cf_chain (s # ss) st =
     (case cf_snprintf st s of Inl f \<Rightarrow> Inl f | Inr st' \<Rightarrow> cf_chain ss st')"

text \<open>\<^verbatim>\<open>cf\<close> is all zeros (the empty string) when \<^verbatim>\<open>mkconf\<close> runs.\<close>

definition mkconf_cf :: "gs \<Rightarrow> ending + string" where
  "mkconf_cf g = (case cf_chain (conf_pieces g) ([], 0) of Inl f \<Rightarrow> Inl f | Inr (cf, n) \<Rightarrow> Inr cf)"

text \<open>\<^verbatim>\<open>mkconf\<close> returns the thread pool handle \<^verbatim>\<open>bgp\<close> and the string left in
  \<^verbatim>\<open>cf\<close>.\<close>

definition mkconf :: "world \<Rightarrow> gs \<Rightarrow> cint \<Rightarrow> (cint \<times> string) prog" where
  "mkconf w g bgp =
     seq (if bg g \<noteq> 0 \<and> bgp = 0 then call w (Deltafs_tp_init (bg g)) else return bgp)
       (\<lambda>bgp'. if bg g \<noteq> 0 \<and> bgp' = 0 then complain ''fail to init thread pool''
          else (case mkconf_cf g of
                  Inl f \<Rightarrow> (\<lambda>tr. Stop f tr)
                | Inr cf \<Rightarrow> return (bgp', cf)))"

subsection \<open>writekey, writepoch, write\<close>

text \<open>The name \<^verbatim>\<open>writekey\<close> builds in \<^verbatim>\<open>char fname[20]\<close>.\<close>

definition mkfname :: "cint \<Rightarrow> cint \<Rightarrow> string" where
  "mkfname k rank = fst (snprintf 20 (''f'' @ fmt_08x k @ ''-r'' @ fmt_08x rank))"

definition writekey :: "world \<Rightarrow> gs \<Rightarrow> cint \<Rightarrow> cint \<Rightarrow> cint \<Rightarrow> string \<Rightarrow> unit prog" where
  "writekey w g dir k e v =
     (if \<not> ndebug w \<and> dir = 0 then abort
      else seq (call w (Plfsdir_append (mkfname k (myrank g)) e v))
             (\<lambda>r. if r \<noteq> 0 then complain ''error writing %s: %s'' else return ()))"

text \<open>\<^verbatim>\<open>for (int i = 0; i < g.nkeys; i++) writekey(i, e, v);\<close> from \<open>i\<close> on.\<close>

function keys_loop ::
  "world \<Rightarrow> gs \<Rightarrow> cint \<Rightarrow> cint \<Rightarrow> string \<Rightarrow> cint \<Rightarrow> unit prog" where
  "keys_loop w g dir e v i tr =
     (if i <s nkeys g then
        (case writekey w g dir i e v tr of
           Stop x t \<Rightarrow> Stop x t
         | Cont u t \<Rightarrow> keys_loop w g dir e v (i + 1) t)
      else Cont () tr)"
  by pat_completeness auto
termination
proof (relation "measure (\<lambda>(w, g, dir, e, v, i, tr). nat (sint (nkeys g) - sint i))")
  show "wf (measure (\<lambda>(w, g, dir, e, v, i, tr). nat (sint (nkeys g) - sint i)))"
    by simp
next
  fix w :: world and g :: gs and dir e :: cint and v :: string and i :: cint
    and tr :: "call list" and u :: unit and t :: "call list"
  assume lt: "i <s nkeys g"
  have "sint i < sint (nkeys g)" using lt by (simp add: word_sless_alt)
  moreover have "sint (nkeys g) < 2 ^ 31" using sint_lt [of "nkeys g"] by simp
  moreover have "- (2 ^ 31) \<le> sint i" using sint_ge [of i] by simp
  ultimately have "sint (i + 1) = sint i + 1"
    by (simp add: sint_word_ariths signed_take_bit_int_eq_self)
  with \<open>sint i < sint (nkeys g)\<close>
  show "((w, g, dir, e, v, i + 1, t), (w, g, dir, e, v, i, tr))
          \<in> measure (\<lambda>(w, g, dir, e, v, i, tr). nat (sint (nkeys g) - sint i))"
    by simp
qed

declare keys_loop.simps [simp del]

text \<open>\<^verbatim>\<open>v.resize(g.valsz, '.')\<close> takes a \<^verbatim>\<open>size_t\<close>: a negative \<^verbatim>\<open>g.valsz\<close> is
  converted to a length beyond \<^verbatim>\<open>max_size()\<close> and \<^verbatim>\<open>std::length_error\<close> is thrown,
  which nothing catches.\<close>

definition writepoch :: "world \<Rightarrow> gs \<Rightarrow> cint \<Rightarrow> cint \<Rightarrow> unit prog" where
  "writepoch w g dir e =
     (if \<not> ndebug w \<and> dir = 0 then abort
      else if valsz g <s 0 then abort
      else
        seq (keys_loop w g dir e (replicate (nat (sint (valsz g))) CHR ''.'') 0)
          (\<lambda>u. seq (call w MPI_Barrier)
            (\<lambda>r. if r \<noteq> 0 then complain ''fail to do mpi barrier''
               else seq (call w (Plfsdir_epoch_flush e))
                 (\<lambda>r. if r \<noteq> 0 then complain ''error flushing dir: %s''
                    else return ()))))"

text \<open>\<^verbatim>\<open>for (int e = 0; e < g.nepochs; e++) writepoch(e);\<close> from \<open>e\<close> on.\<close>

function epochs_loop :: "world \<Rightarrow> gs \<Rightarrow> cint \<Rightarrow> cint \<Rightarrow> unit prog" where
  "epochs_loop w g dir e tr =
     (if e <s nepochs g then
        (case writepoch w g dir e tr of
           Stop x t \<Rightarrow> Stop x t
         | Cont u t \<Rightarrow> epochs_loop w g dir (e + 1) t)
      else Cont () tr)"
  by pat_completeness auto
termination
proof (relation "measure (\<lambda>(w, g, dir, e, tr). nat (sint (nepochs g) - sint e))")
  show "wf (measure (\<lambda>(w, g, dir, e, tr). nat (sint (nepochs g) - sint e)))"
    by simp
next
  fix w :: world and g :: gs and dir e :: cint
    and tr :: "call list" and u :: unit and t :: "call list"
  assume lt: "e <s nepochs g"
  have "sint e < sint (nepochs g)" using lt by (simp add: word_sless_alt)
  moreover have "sint (nepochs g) < 2 ^ 31" using sint_lt [of "nepochs g"] by simp
  moreover have "- (2 ^ 31) \<le> sint e" using sint_ge [of e] by simp
  ultimately have "sint (e + 1) = sint e + 1"
    by (simp add: sint_word_ariths signed_take_bit_int_eq_self)
  with \<open>sint e < sint (nepochs g)\<close>
  show "((w, g, dir, e + 1, t), (w, g, dir, e, tr))
          \<in> measure (\<lambda>(w, g, dir, e, tr). nat (sint (nepochs g) - sint e))"
    by simp
qed

declare epochs_loop.simps [simp del]

text \<open>\<^verbatim>\<open>write()\<close>, named \<open>write_dir\<close> here; \<^verbatim>\<open>dir\<close>, \<^verbatim>\<open>env\<close> and \<^verbatim>\<open>bgp\<close> are
  \<^verbatim>\<open>NULL\<close> when it is called.\<close>

definition write_dir :: "world \<Rightarrow> gs \<Rightarrow> unit prog" where
  "write_dir w g =
     seq (if bbos g \<noteq> 0 then mkbbos w g 0 else return 0)
       (\<lambda>env. seq (mkconf w g 0)
         (\<lambda>(bgp, cf). seq (call w (Plfsdir_create_handle cf))
           (\<lambda>dir. seq (call w Plfsdir_set_err_printer)
             (\<lambda>u. seq (if bgp \<noteq> 0 then call w Plfsdir_set_thread_pool else return 0)
               (\<lambda>u. seq (if env \<noteq> 0 then call w Plfsdir_set_env else return 0)
                 (\<lambda>u. seq (call w (Plfsdir_open (dirname g)))
                   (\<lambda>r. if r \<noteq> 0 then complain ''error opening dir: %s''
                      else seq (epochs_loop w g dir 0)
                        (\<lambda>u. seq (call w Plfsdir_finish)
                          (\<lambda>r. if r \<noteq> 0 then complain ''error finalizing dir: %s''
                             else seq (call w Plfsdir_free_handle)
                               (\<lambda>u. return ()))))))))))"

subsection \<open>main\<close>

text \<open>\<^verbatim>\<open>memset(&g, 0, sizeof(g))\<close>, the rank and size from MPI, then the defaults.\<close>

definition defaults :: "world \<Rightarrow> gs" where
  "defaults w =
     \<lparr> bg = 0, bbos = 0, bbosport = 12345, bboshostname = ''127.0.0.1'', dirname = [],
       myrank = mpi_rank w, commsz = mpi_size w, nepochs = 8, nkeys = 1024,
       filterbits = 10, keysz = 8, valsz = 32, iosz = 2097152, logrotation = 0,
       timeout = 300, verbose = 0 \<rparr>"

text \<open>The body of \<^verbatim>\<open>switch (ch)\<close> for one option character and its \<^verbatim>\<open>optarg\<close>:
  the globals after it, or the message handed to \<^verbatim>\<open>usage\<close>.\<close>

definition switch_ch :: "char \<Rightarrow> string \<Rightarrow> gs \<Rightarrow> string option + gs" where
  "switch_ch ch optarg g =
     (if ch = CHR ''s'' then
        (let g' = g\<lparr>iosz := atoi optarg\<rparr>
         in if iosz g' \<le>s 0 then Inl (Some ''bad io size'') else Inr g')
      else if ch = CHR ''e'' then
        (let g' = g\<lparr>nepochs := atoi optarg\<rparr>
         in if nepochs g' <s 0 then Inl (Some ''bad epoch nums'') else Inr g')
      else if ch = CHR ''n'' then
        (let g' = g\<lparr>nkeys := atoi optarg\<rparr>
         in if nkeys g' <s 0 then Inl (Some ''bad key nums'') else Inr g')
      else if ch = CHR ''f'' then
        (let g' = g\<lparr>filterbits := atoi optarg\<rparr>
         in if filterbits g' <s 0 then Inl (Some ''bad filter bits'') else Inr g')
      else if ch = CHR ''k'' then
        (let g' = g\<lparr>keysz := atoi optarg\<rparr>
         in if keysz g' \<le>s 0 then Inl (Some ''bad key size'') else Inr g')
      else if ch = CHR ''d'' then
        (let g' = g\<lparr>valsz := atoi optarg\<rparr>
         in if valsz g' <s 0 then Inl (Some ''bad value size'') else Inr g')
      else if ch = CHR ''j'' then
        (let g' = g\<lparr>bg := atoi optarg\<rparr>
         in if bg g' <s 0 then Inl (Some ''bad bg number'') else Inr g')
      else if ch = CHR ''t'' then
        (let g' = g\<lparr>timeout := atoi optarg\<rparr>
         in if timeout g' <s 0 then Inl (Some ''bad timeout'') else Inr g')
      else if ch = CHR ''r'' then Inr (g\<lparr>logrotation := 1\<rparr>)
      else if ch = CHR ''b'' then Inr (g\<lparr>bbos := 1\<rparr>)
      else if ch = CHR ''v'' then Inr (g\<lparr>verbose := 1\<rparr>)
      else Inl None)"

text \<open>The \<^verbatim>\<open>while ((ch = getopt(...)) != -1) switch (ch)\<close> loop, over what
  \<^verbatim>\<open>getopt\<close> returns in turn: the option character and \<^verbatim>\<open>optarg\<close>.\<close>

fun getopt_loop :: "(char \<times> string) list \<Rightarrow> gs \<Rightarrow> gs prog" where
  "getopt_loop [] g = return g"
| "getopt_loop ((ch, optarg) # rest) g =
     (case switch_ch ch optarg g of
        Inl msg \<Rightarrow> usage msg
      | Inr g' \<Rightarrow> getopt_loop rest g')"

text \<open>The positional arguments \<^verbatim>\<open>argv[optind..]\<close>.\<close>

definition positional :: "string list \<Rightarrow> gs \<Rightarrow> gs prog" where
  "positional args g =
     (if length args = 0 then usage (Some ''bad args'')
      else
        let g1 = g\<lparr>dirname := args ! 0\<rparr>;
            g2 = (if 1 < length args then g1\<lparr>bboshostname := args ! 1\<rparr> else g1);
            g3 = (if 2 < length args then g2\<lparr>bbosport := atoi (args ! 2)\<rparr> else g2)
        in if bbosport g3 \<le>s 0 then usage (Some ''bad bbos port'') else return g3)"

definition main_prog :: "world \<Rightarrow> (char \<times> string) list \<Rightarrow> string list \<Rightarrow> unit prog" where
  "main_prog w opts args =
     seq (call w MPI_Init)
       (\<lambda>r. if r \<noteq> 0 then complain ''fail to init mpi''
          else seq (call w MPI_Comm_rank)
            (\<lambda>r. if r \<noteq> 0 then complain ''cannot get proc mpi rank''
               else seq (call w MPI_Comm_size)
                 (\<lambda>r. if r \<noteq> 0 then complain ''cannot get mpi world size''
                    else seq (getopt_loop opts (defaults w))
                      (\<lambda>g. seq (positional args g)
                        (\<lambda>g. seq (call w Signal_SIGALRM)
                          (\<lambda>u. seq (call w (Alarm (timeout g)))
                            (\<lambda>u. seq (call w MPI_Barrier)
                              (\<lambda>u. seq (write_dir w g)
                                (\<lambda>u. seq (call w MPI_Finalize)
                                  (\<lambda>u tr. Stop (Exited 0 None) tr))))))))))"

text \<open>A run of the process from an empty trace: how it ends and the calls it made.\<close>

definition main :: "world \<Rightarrow> (char \<times> string) list \<Rightarrow> string list \<Rightarrow> ending \<times> call list" where
  "main w opts args =
     (case main_prog w opts args [] of
        Stop e t \<Rightarrow> (e, t)
      | Cont u t \<Rightarrow> (Exited 0 None, t))"

subsection \<open>Reading traces and descriptors\<close>

text \<open>The calls of a trace that belong to the write protocol of a plfsdir session.\<close>

fun session_call :: "call \<Rightarrow> bool" where
  "session_call (Plfsdir_append k e v) = True"
| "session_call MPI_Barrier = True"
| "session_call (Plfsdir_epoch_flush e) = True"
| "session_call Plfsdir_finish = True"
| "session_call c = False"

text \<open>The keys and the values handed to \<^verbatim>\<open>deltafs_plfsdir_append\<close>, in order.\<close>

fun appended :: "call list \<Rightarrow> (string \<times> string) list" where
  "appended [] = []"
| "appended (Plfsdir_append k e v # cs) = (k, v) # appended cs"
| "appended (c # cs) = appended cs"

text \<open>What one epoch and a whole session call when nothing fails: \<^verbatim>\<open>g.nkeys\<close>
  appends, the barrier, the flush; epoch after epoch; then the finish.\<close>

definition key_calls :: "gs \<Rightarrow> cint \<Rightarrow> string \<Rightarrow> nat \<Rightarrow> call list" where
  "key_calls g e v i =
     map (\<lambda>k. Plfsdir_append (mkfname (word_of_nat k) (myrank g)) e v)
       [i..<nat (sint (nkeys g))]"

definition epoch_calls :: "gs \<Rightarrow> cint \<Rightarrow> call list" where
  "epoch_calls g e =
     key_calls g e (replicate (nat (sint (valsz g))) CHR ''.'') 0
       @ [MPI_Barrier, Plfsdir_epoch_flush e]"

definition epochs_script :: "gs \<Rightarrow> nat \<Rightarrow> call list" where
  "epochs_script g j =
     concat (map (\<lambda>n. epoch_calls g (word_of_nat n)) [j..<nat (sint (nepochs g))])"

text \<open>\<open>follows p S\<close>: from any trace, the session calls \<open>p\<close> adds are an initial part of
  \<open>S\<close>, and all of \<open>S\<close> when \<open>p\<close> returns.\<close>

definition follows :: "'a prog \<Rightarrow> call list \<Rightarrow> bool" where
  "follows p S =
     (\<forall>tr. \<exists>added. trace_of (p tr) = tr @ added
         \<and> prefix (filter session_call added) S
         \<and> (returned (p tr) \<longrightarrow> filter session_call added = S))"

text \<open>\<open>succeeds p P\<close>: from any trace \<open>p\<close> returns, with a value satisfying \<open>P\<close>.\<close>

definition succeeds :: "'a prog \<Rightarrow> ('a \<Rightarrow> bool) \<Rightarrow> bool" where
  "succeeds p P = (\<forall>tr. \<exists>x t. p tr = Cont x t \<and> P x)"

text \<open>The calls \<open>p\<close> makes when started after the calls \<open>tr\<close>.\<close>

definition added_by :: "'a prog \<Rightarrow> call list \<Rightarrow> call list" where
  "added_by p tr = drop (length tr) (trace_of (p tr))"

text \<open>Whether \<open>x\<close> may come before \<open>y\<close> in a trace: not a flush of an epoch before an
  append to it or to an earlier one, and not an append before the flush of an earlier
  epoch.\<close>

fun in_order :: "call \<Rightarrow> call \<Rightarrow> bool" where
  "in_order (Plfsdir_epoch_flush e1) (Plfsdir_append k e v) = (e1 <s e)"
| "in_order (Plfsdir_append k e v) (Plfsdir_epoch_flush e1) = (e \<le>s e1)"
| "in_order x y = True"

text \<open>An environment in which nothing fails: every status is 0 and every handle is not
  \<^verbatim>\<open>NULL\<close>.\<close>

fun returns_handle :: "call \<Rightarrow> bool" where
  "returns_handle (Deltafs_tp_init n) = True"
| "returns_handle (Deltafs_env_init lo remote) = True"
| "returns_handle (Plfsdir_create_handle cf) = True"
| "returns_handle c = False"

definition no_failures :: "world \<Rightarrow> bool" where
  "no_failures w = (\<forall>tr c. (ret w tr c = 0) = (\<not> returns_handle c))"

text \<open>One such environment, for a single rank, and the globals left by
  \<^verbatim>\<open>-e 2 -n 4 -k 8 -d 4\<close> on the directory \<^verbatim>\<open>d\<close>.\<close>

definition calm :: world where
  "calm = \<lparr> ret = (\<lambda>tr c. if returns_handle c then 1 else 0),
            mpi_rank = 0, mpi_size = 1, ndebug = True \<rparr>"

definition scenario_A :: gs where
  "scenario_A = (defaults calm)\<lparr>nepochs := 2, nkeys := 4, keysz := 8, valsz := 4, dirname := ''d''\<rparr>"

text \<open>The same with \<^verbatim>\<open>-d 0\<close>, and with \<^verbatim>\<open>-k 100\<close>.\<close>

definition scenario_B :: gs where
  "scenario_B = scenario_A\<lparr>valsz := 0\<rparr>"

definition scenario_K :: gs where
  "scenario_K = scenario_A\<lparr>keysz := 100\<rparr>"





subsection \<open>The alarm\<close>

text \<open>
  \<^verbatim>\<open>alarm(seconds)\<close> (POSIX): \<^verbatim>\<open>SIGALRM\<close> is sent to the process after that many
  seconds; with 0 seconds no alarm is scheduled and a pending one is cancelled. The
  handler installed by \<^verbatim>\<open>signal(SIGALRM, sigalarm)\<close> then runs \<^verbatim>\<open>sigalarm\<close>.

  Time passes in the external calls only: \<open>dur tr c\<close> is the number of seconds call
  \<open>c\<close> takes after the calls \<open>tr\<close>. \<open>clocked dur left done cs\<close> lets the calls
  \<open>cs\<close> run in turn after the calls \<open>done\<close>, with \<open>left\<close> seconds to go until the
  signal (\<open>None\<close>: no alarm pending): the calls that returned, and whether the signal
  arrived. A call that would return when or after the signal arrives does not return.
\<close>

fun is_alarm :: "call \<Rightarrow> bool" where
  "is_alarm (Alarm t) = True"
| "is_alarm c = False"











text \<open>
  An environment in which the barrier of \<^verbatim>\<open>main\<close> (the one right after \<^verbatim>\<open>alarm\<close>) and
  \<^verbatim>\<open>MPI_Finalize\<close> fail; \<^verbatim>\<open>main\<close> does not look at their results.
\<close>

definition unchecked_mpi :: world where
  "unchecked_mpi =
     \<lparr> ret = (\<lambda>tr c. if returns_handle c \<or> c = MPI_Finalize
                          \<or> (c = MPI_Barrier \<and> tr \<noteq> [] \<and> is_alarm (last tr))
                       then 1 else 0),
       mpi_rank = 0, mpi_size = 1, ndebug = True \<rparr>"

text \<open>A descriptor \<^verbatim>\<open>key=value&key=value...\<close> read back as its fields, in order.\<close>

fun split_on :: "char \<Rightarrow> string \<Rightarrow> string list" where
  "split_on c [] = [[]]"
| "split_on c (x # xs) =
     (if x = c then [] # split_on c xs
      else (case split_on c xs of [] \<Rightarrow> [[x]] | y # ys \<Rightarrow> (x # y) # ys))"




text \<open>A hexadecimal numeral read back as a number.\<close>

definition xval :: "char \<Rightarrow> nat" where
  "xval c = (let n = of_char c in if n \<le> (57::nat) then n - 48 else n - 87)"

definition xtoi :: "string \<Rightarrow> nat" where
  "xtoi s = foldl (\<lambda>a c. 16 * a + xval c) 0 s"

section \<open>Properties\<close>

subsection \<open>Renderings\<close>

lemma utoa_small: "n < b \<or> b < 2 \<Longrightarrow> utoa b n = [xdigit n]"
  by (simp add: utoa.simps)

lemma utoa_big: "\<not> (n < b \<or> b < 2) \<Longrightarrow> utoa b n = utoa b (n div b) @ [xdigit (n mod b)]"
  by (subst utoa.simps) simp

lemma replicate_num: "replicate (numeral k) x = x # replicate (pred_numeral k) x"
  by (simp add: numeral_eq_Suc)

lemma utoa_length: "2 \<le> b \<Longrightarrow> 0 < k \<Longrightarrow> n < b ^ k \<Longrightarrow> length (utoa b n) \<le> k"
proof (induction b n arbitrary: k rule: utoa.induct)
  case (1 b n)
  show ?case
  proof (cases "n < b")
    case True
    with 1(3) show ?thesis by (simp add: utoa_small)
  next
    case False
    with 1(2) have big: "\<not> (n < b \<or> b < 2)" by simp
    have k1: "1 < k"
    proof (rule ccontr)
      assume "\<not> 1 < k"
      with 1(3) have "k = 1" by simp
      with 1(4) False show False by simp
    qed
    then obtain j where j: "k = Suc j" "0 < j" by (cases k) auto
    from 1(4) j have "n < b * b ^ j" by simp
    then have "n div b < b ^ j"
      using 1(2) by (simp add: less_mult_imp_div_less mult.commute)
    from 1(1)[OF big 1(2) j(2) this] j show ?thesis
      by (simp add: utoa_big[OF big])
  qed
qed

lemma fmt_08x_length: "length (fmt_08x x) = 8"
proof -
  have "unat x < 16 ^ 8" using unsigned_less[of x] by simp
  then have "length (utoa 16 (unat x)) \<le> 8" by (intro utoa_length) simp_all
  then show ?thesis by (simp add: fmt_08x_def Let_def)
qed

lemma fmt_d_length: "length (fmt_d x) \<le> 11"
proof -
  have r: "- (2 ^ 31) \<le> sint x" "sint x < 2 ^ 31"
    using sint_ge[of x] sint_lt[of x] by simp_all
  show ?thesis
  proof (cases "sint x < 0")
    case True
    have "nat (- sint x) < 10 ^ 10" using r by simp
    then have "length (utoa 10 (nat (- sint x))) \<le> 10" by (intro utoa_length) simp_all
    with True show ?thesis by (simp add: fmt_d_def)
  next
    case False
    have "nat (sint x) < 10 ^ 10" using r by simp
    then have "length (utoa 10 (nat (sint x))) \<le> 10" by (intro utoa_length) simp_all
    with False show ?thesis by (simp add: fmt_d_def)
  qed
qed

lemma fmt_d_0: "fmt_d 0 = ''0''"
  by (simp add: fmt_d_def utoa_small xdigit_def)

lemma xval_xdigit: "d < 16 \<Longrightarrow> xval (xdigit d) = d"
proof -
  assume "d < 16"
  then have "d = 0 \<or> d = 1 \<or> d = 2 \<or> d = 3 \<or> d = 4 \<or> d = 5 \<or> d = 6 \<or> d = 7
      \<or> d = 8 \<or> d = 9 \<or> d = 10 \<or> d = 11 \<or> d = 12 \<or> d = 13 \<or> d = 14 \<or> d = 15"
    by arith
  then show ?thesis
    by (elim disjE) (simp_all add: xval_def xdigit_def)
qed

lemma xtoi_snoc: "xtoi (s @ [c]) = 16 * xtoi s + xval c"
  by (simp add: xtoi_def)

lemma xtoi_utoa: "xtoi (utoa 16 n) = n"
proof (induction "16::nat" n rule: utoa.induct)
  case (1 n)
  show ?case
  proof (cases "n < 16")
    case True
    then show ?thesis by (simp add: utoa_small xtoi_def xval_xdigit)
  next
    case False
    then have big: "\<not> (n < 16 \<or> (16::nat) < 2)" by simp
    from 1[OF big] show ?thesis
      by (simp add: utoa_big[OF big] xtoi_snoc xval_xdigit)
  qed
qed

lemma xtoi_zeros: "xtoi (replicate k CHR ''0'' @ s) = xtoi s"
proof -
  have z: "xval CHR ''0'' = 0" by (simp add: xval_def)
  have "foldl (\<lambda>a c. 16 * a + xval c) 0 (replicate k CHR ''0'') = 0"
    by (induction k) (simp_all add: z)
  then show ?thesis by (simp add: xtoi_def)
qed

lemma xtoi_fmt_08x: "xtoi (fmt_08x x) = unat x"
  by (simp add: fmt_08x_def Let_def xtoi_zeros xtoi_utoa)

lemma fmt_08x_inj: "fmt_08x x = fmt_08x y \<Longrightarrow> x = y"
proof -
  assume "fmt_08x x = fmt_08x y"
  then have "xtoi (fmt_08x x) = xtoi (fmt_08x y)" by simp
  then show "x = y" by (simp add: xtoi_fmt_08x word_unat_eq_iff)
qed

lemma mkfname_eq: "mkfname k r = ''f'' @ fmt_08x k @ ''-r'' @ fmt_08x r"
  by (simp add: mkfname_def snprintf_def fmt_08x_length)

lemma mkfname_length: "length (mkfname k r) = 19"
  by (simp add: mkfname_eq fmt_08x_length)

lemma mkfname_inj: "mkfname k r = mkfname k' r' \<Longrightarrow> k = k' \<and> r = r'"
proof -
  assume "mkfname k r = mkfname k' r'"
  then have "fmt_08x k @ ''-r'' @ fmt_08x r = fmt_08x k' @ ''-r'' @ fmt_08x r'"
    by (simp add: mkfname_eq)
  then have "fmt_08x k = fmt_08x k' \<and> fmt_08x r = fmt_08x r'"
    by (simp add: fmt_08x_length)
  then show "k = k' \<and> r = r'" by (auto dest: fmt_08x_inj)
qed

subsection \<open>The configuration string fits its buffer\<close>

lemma cf_chain_fits:
  "length cf = n \<Longrightarrow> n + length (concat ss) \<le> 499 \<Longrightarrow>
   cf_chain ss (cf, n) = Inr (cf @ concat ss, n + length (concat ss))"
proof (induction ss arbitrary: cf n)
  case Nil
  then show ?case by simp
next
  case (Cons s ss)
  from Cons.prems have fit: "n + length s \<le> 499" by simp
  then have step: "cf_snprintf (cf, n) s = Inr (cf @ s, n + length s)"
    using Cons.prems(1) by (simp add: cf_snprintf_def snprintf_at_def snprintf_def)
  have "cf_chain ss (cf @ s, n + length s)
      = Inr ((cf @ s) @ concat ss, (n + length s) + length (concat ss))"
    using Cons.prems by (intro Cons.IH) simp_all
  with step show ?case by simp
qed

lemma conf_pieces_length: "length (concat (conf_pieces g)) \<le> 267"
proof -
  have "length (fmt_d (myrank g)) \<le> 11" "length (fmt_d (iosz g)) \<le> 11"
    "length (fmt_d (keysz g)) \<le> 11" "length (fmt_d (valsz g)) \<le> 11"
    "length (fmt_d (filterbits g)) \<le> 11" "length (fmt_d (logrotation g)) \<le> 11"
    by (rule fmt_d_length)+
  then show ?thesis by (simp add: conf_pieces_def fmt_d_0)
qed

lemma mkconf_cf_eq: "mkconf_cf g = Inr (concat (conf_pieces g))"
proof -
  have "cf_chain (conf_pieces g) ([], 0)
      = Inr ([] @ concat (conf_pieces g), 0 + length (concat (conf_pieces g)))"
    using conf_pieces_length [of g] by (intro cf_chain_fits) simp_all
  then show ?thesis by (simp add: mkconf_cf_def)
qed

subsection \<open>The fields of the configuration string\<close>











lemma split_on_last: "c \<notin> set s \<Longrightarrow> split_on c s = [s]"
  by (induction s) auto



text \<open>
  C2. \<^verbatim>\<open>mkconf\<close> never truncates the descriptor: for every value of the globals
  the eleven \<^verbatim>\<open>snprintf\<close> calls leave in \<^verbatim>\<open>cf\<close> the whole rendering, which is at
  most 267 bytes long and so always below the 500 bytes of \<^verbatim>\<open>cf\<close>; no store falls
  outside the array. A descriptor that would exceed the buffer cannot arise from 32-bit
  fields, so there is no input on which an overflow would have to be reported.
  \<^verbatim>\<open>mkconf\<close> either fails on the thread pool or returns that whole descriptor.
\<close>

theorem mkconf_never_truncates:
  "mkconf_cf g = Inr (concat (conf_pieces g))
   \<and> length (concat (conf_pieces g)) \<le> 267
   \<and> ((\<exists>t. mkconf w g bgp tr = Stop (Exited 1 (Some (Error_msg ''fail to init thread pool''))) t)
      \<or> (\<exists>b t. mkconf w g bgp tr = Cont (b, concat (conf_pieces g)) t))"
  by (simp add: mkconf_cf_eq conf_pieces_length mkconf_def seq_def call_def return_def
      complain_def)




lemma mkfname_small: "mkfname 5 2 = ''f00000005-r00000002''"
  by (simp add: mkfname_def snprintf_def fmt_08x_def utoa_small xdigit_def replicate_num)

text \<open>
  C4. The key \<^verbatim>\<open>writekey\<close> builds is a function of the index and the rank alone, and
  two pairs of index and rank give the same key only if they are the same pair.
\<close>

theorem key_construction_injective:
  "(mkfname k r = mkfname k' r') = (k = k' \<and> r = r')"
  using mkfname_inj [of k r k' r'] by auto

text \<open>The key of index 5 and rank 2, and its neighbours of rank 3 and of index 6.\<close>

theorem key_construction_examples:
  "mkfname 5 2 = ''f00000005-r00000002''
   \<and> mkfname 5 2 \<noteq> mkfname 5 3 \<and> mkfname 5 2 \<noteq> mkfname 6 2"
  using key_construction_injective [of 5 2 5 3] key_construction_injective [of 5 2 6 2]
  by (simp add: mkfname_small)

subsection \<open>Loop counters\<close>

lemma sint_succ: "i <s (n::cint) \<Longrightarrow> sint (i + 1) = sint i + 1"
proof -
  assume lt: "i <s n"
  have "sint i < sint n" using lt by (simp add: word_sless_alt)
  moreover have "sint n < 2 ^ 31" using sint_lt [of n] by simp
  moreover have "- (2 ^ 31) \<le> sint i" using sint_ge [of i] by simp
  ultimately show ?thesis
    by (simp add: sint_word_ariths signed_take_bit_int_eq_self)
qed

lemma word_of_nat_sint: "0 \<le> sint (i::cint) \<Longrightarrow> word_of_nat (nat (sint i)) = i"
  by simp

lemma sint_word_of_nat: "n < 2 ^ 31 \<Longrightarrow> sint (word_of_nat n :: cint) = int n"
  by (simp add: signed_of_nat signed_take_bit_int_eq_self)

subsection \<open>Programs and the session calls they add\<close>

lemma follows_return: "follows (return x) []"
  by (simp add: follows_def return_def trace_of_def returned_def)

lemma follows_stop: "follows (\<lambda>tr. Stop e tr) S"
  by (simp add: follows_def trace_of_def returned_def)

lemma follows_complain: "follows (complain m) S"
  unfolding complain_def by (rule follows_stop)

lemma follows_abort: "follows abort S"
  unfolding abort_def by (rule follows_stop)

lemma follows_usage: "follows (usage m) S"
  unfolding usage_def by (rule follows_stop)

lemma follows_call: "follows (call w c) (if session_call c then [c] else [])"
  by (simp add: follows_def call_def trace_of_def returned_def)

lemma follows_seq:
  assumes m: "follows m S1" and f: "\<And>x. follows (f x) S2"
  shows "follows (seq m f) (S1 @ S2)"
  unfolding follows_def
proof
  fix tr
  from m obtain a1 where a1: "trace_of (m tr) = tr @ a1"
    "prefix (filter session_call a1) S1"
    "returned (m tr) \<longrightarrow> filter session_call a1 = S1"
    unfolding follows_def by blast
  show "\<exists>added. trace_of (seq m f tr) = tr @ added
         \<and> prefix (filter session_call added) (S1 @ S2)
         \<and> (returned (seq m f tr) \<longrightarrow> filter session_call added = S1 @ S2)"
  proof (cases "m tr")
    case (Stop e t)
    with a1 have "trace_of (seq m f tr) = tr @ a1" "\<not> returned (seq m f tr)"
      by (simp_all add: seq_def trace_of_def returned_def)
    moreover from a1(2) have "prefix (filter session_call a1) (S1 @ S2)"
      by (rule prefix_prefix)
    ultimately show ?thesis by blast
  next
    case (Cont x t)
    with a1 have t: "t = tr @ a1" and s1: "filter session_call a1 = S1"
      by (simp_all add: trace_of_def returned_def)
    from f [of x] obtain a2 where a2: "trace_of (f x t) = t @ a2"
      "prefix (filter session_call a2) S2"
      "returned (f x t) \<longrightarrow> filter session_call a2 = S2"
      unfolding follows_def by blast
    from Cont have eq: "seq m f tr = f x t" by (simp add: seq_def)
    have "trace_of (seq m f tr) = tr @ (a1 @ a2)" using eq a2(1) t by simp
    moreover have "prefix (filter session_call (a1 @ a2)) (S1 @ S2)"
      using s1 a2(2) by simp
    moreover have "returned (seq m f tr) \<longrightarrow> filter session_call (a1 @ a2) = S1 @ S2"
      using eq s1 a2(3) by simp
    ultimately show ?thesis by blast
  qed
qed

lemma follows_seq_nil:
  "follows m [] \<Longrightarrow> (\<And>x. follows (f x) S) \<Longrightarrow> follows (seq m f) S"
  using follows_seq [of m "[]" f S] by simp

lemma follows_writekey:
  "follows (writekey w g dir k e v) [Plfsdir_append (mkfname k (myrank g)) e v]"
proof -
  have "follows (seq (call w (Plfsdir_append (mkfname k (myrank g)) e v))
             (\<lambda>r. if r \<noteq> 0 then complain ''error writing %s: %s'' else return ()))
          ([Plfsdir_append (mkfname k (myrank g)) e v] @ [])"
    using follows_call [of w "Plfsdir_append (mkfname k (myrank g)) e v"]
    by (intro follows_seq) (simp_all add: follows_complain follows_return)
  then show ?thesis by (simp add: writekey_def follows_abort)
qed

lemma keys_loop_done: "\<not> i <s nkeys g \<Longrightarrow> keys_loop w g dir e v i = return ()"
  by (rule ext) (simp add: keys_loop.simps return_def)

lemma keys_loop_step:
  "i <s nkeys g \<Longrightarrow>
   keys_loop w g dir e v i = seq (writekey w g dir i e v) (\<lambda>u. keys_loop w g dir e v (i + 1))"
  by (rule ext) (simp add: keys_loop.simps [of w g dir e v i] seq_def)

lemma follows_keys_loop:
  "nat (sint (nkeys g) - sint i) = d \<Longrightarrow> 0 \<le> sint i \<Longrightarrow>
   follows (keys_loop w g dir e v i) (key_calls g e v (nat (sint i)))"
proof (induction d arbitrary: i)
  case 0
  then have "\<not> i <s nkeys g" by (simp add: word_sless_alt)
  moreover from 0 have "key_calls g e v (nat (sint i)) = []"
    by (simp add: key_calls_def)
  ultimately show ?case by (simp add: keys_loop_done follows_return)
next
  case (Suc d)
  then have lt: "i <s nkeys g" by (simp add: word_sless_alt)
  have s: "sint (i + 1) = sint i + 1" using lt by (rule sint_succ)
  have "follows (keys_loop w g dir e v (i + 1)) (key_calls g e v (nat (sint (i + 1))))"
    using Suc.prems s by (intro Suc.IH) simp_all
  then have "follows (seq (writekey w g dir i e v) (\<lambda>u. keys_loop w g dir e v (i + 1)))
      ([Plfsdir_append (mkfname i (myrank g)) e v] @ key_calls g e v (nat (sint (i + 1))))"
    by (intro follows_seq follows_writekey)
  moreover have "key_calls g e v (nat (sint i))
      = Plfsdir_append (mkfname i (myrank g)) e v # key_calls g e v (nat (sint (i + 1)))"
  proof -
    have "nat (sint i) < nat (sint (nkeys g))"
      using lt Suc.prems(2) by (simp add: word_sless_alt)
    then have "[nat (sint i)..<nat (sint (nkeys g))]
        = nat (sint i) # [Suc (nat (sint i))..<nat (sint (nkeys g))]"
      by (rule upt_conv_Cons)
    moreover have "Suc (nat (sint i)) = nat (sint (i + 1))"
      using s Suc.prems(2) by simp
    ultimately show ?thesis
      using Suc.prems(2) by (simp add: key_calls_def)
  qed
  ultimately show ?case by (simp add: keys_loop_step [OF lt])
qed

lemma follows_writepoch: "follows (writepoch w g dir e) (epoch_calls g e)"
proof -
  let ?v = "replicate (nat (sint (valsz g))) CHR ''.''"
  have k: "follows (keys_loop w g dir e ?v 0) (key_calls g e ?v 0)"
    using follows_keys_loop [of g 0 _ w dir e ?v] by simp
  have fl: "follows (seq (call w (Plfsdir_epoch_flush e))
                 (\<lambda>r. if r \<noteq> 0 then complain ''error flushing dir: %s'' else return ()))
             ([Plfsdir_epoch_flush e] @ [])"
    using follows_call [of w "Plfsdir_epoch_flush e"]
    by (intro follows_seq) (simp_all add: follows_complain follows_return)
  have ba: "follows (seq (call w MPI_Barrier)
            (\<lambda>r. if r \<noteq> 0 then complain ''fail to do mpi barrier''
               else seq (call w (Plfsdir_epoch_flush e))
                 (\<lambda>r. if r \<noteq> 0 then complain ''error flushing dir: %s''
                    else return ())))
             ([MPI_Barrier] @ [Plfsdir_epoch_flush e])"
    using follows_call [of w MPI_Barrier] fl
    by (intro follows_seq) (simp_all add: follows_complain)
  have "follows (seq (keys_loop w g dir e ?v 0)
          (\<lambda>u. seq (call w MPI_Barrier)
            (\<lambda>r. if r \<noteq> 0 then complain ''fail to do mpi barrier''
               else seq (call w (Plfsdir_epoch_flush e))
                 (\<lambda>r. if r \<noteq> 0 then complain ''error flushing dir: %s''
                    else return ()))))
          (key_calls g e ?v 0 @ [MPI_Barrier] @ [Plfsdir_epoch_flush e])"
    by (rule follows_seq) (rule k, rule ba)
  then show ?thesis by (simp add: writepoch_def epoch_calls_def follows_abort)
qed

lemma epochs_loop_done: "\<not> e <s nepochs g \<Longrightarrow> epochs_loop w g dir e = return ()"
  by (rule ext) (simp add: epochs_loop.simps return_def)

lemma epochs_loop_step:
  "e <s nepochs g \<Longrightarrow>
   epochs_loop w g dir e = seq (writepoch w g dir e) (\<lambda>u. epochs_loop w g dir (e + 1))"
  by (rule ext) (simp add: epochs_loop.simps [of w g dir e] seq_def)

lemma follows_epochs_loop:
  "nat (sint (nepochs g) - sint e) = d \<Longrightarrow> 0 \<le> sint e \<Longrightarrow>
   follows (epochs_loop w g dir e) (epochs_script g (nat (sint e)))"
proof (induction d arbitrary: e)
  case 0
  then have "\<not> e <s nepochs g" by (simp add: word_sless_alt)
  moreover from 0 have "epochs_script g (nat (sint e)) = []"
    by (simp add: epochs_script_def)
  ultimately show ?case by (simp add: epochs_loop_done follows_return)
next
  case (Suc d)
  then have lt: "e <s nepochs g" by (simp add: word_sless_alt)
  have s: "sint (e + 1) = sint e + 1" using lt by (rule sint_succ)
  have "follows (epochs_loop w g dir (e + 1)) (epochs_script g (nat (sint (e + 1))))"
    using Suc.prems s by (intro Suc.IH) simp_all
  then have "follows (seq (writepoch w g dir e) (\<lambda>u. epochs_loop w g dir (e + 1)))
      (epoch_calls g e @ epochs_script g (nat (sint (e + 1))))"
    by (intro follows_seq follows_writepoch)
  moreover have "epochs_script g (nat (sint e))
      = epoch_calls g e @ epochs_script g (nat (sint (e + 1)))"
  proof -
    have "nat (sint e) < nat (sint (nepochs g))"
      using lt Suc.prems(2) by (simp add: word_sless_alt)
    then have "[nat (sint e)..<nat (sint (nepochs g))]
        = nat (sint e) # [Suc (nat (sint e))..<nat (sint (nepochs g))]"
      by (rule upt_conv_Cons)
    moreover have "Suc (nat (sint e)) = nat (sint (e + 1))"
      using s Suc.prems(2) by simp
    ultimately show ?thesis
      using Suc.prems(2) by (simp add: epochs_script_def)
  qed
  ultimately show ?case by (simp add: epochs_loop_step [OF lt])
qed

lemma follows_call_other: "\<not> session_call c \<Longrightarrow> follows (call w c) []"
  using follows_call [of w c] by simp

lemma follows_if:
  "(c \<Longrightarrow> follows p S) \<Longrightarrow> (\<not> c \<Longrightarrow> follows q S) \<Longrightarrow> follows (if c then p else q) S"
  by simp

lemma follows_mkbbos: "follows (mkbbos w g env) []"
  unfolding mkbbos_def Let_def
  by (intro follows_if follows_seq_nil follows_return follows_complain follows_call_other)
    simp

lemma follows_mkconf: "follows (mkconf w g bgp) []"
  unfolding mkconf_def mkconf_cf_eq sum.case
  apply (rule follows_seq_nil)
   apply (rule follows_if)
    apply (rule follows_call_other, simp)
   apply (rule follows_return)
  apply (rule follows_if)
   apply (rule follows_complain)
  apply (rule follows_return)
  done

lemma follows_session_tail:
  "follows (seq (epochs_loop w g dir 0)
       (\<lambda>u. seq (call w Plfsdir_finish)
         (\<lambda>r. if r \<noteq> 0 then complain ''error finalizing dir: %s''
            else seq (call w Plfsdir_free_handle) (\<lambda>u. return ()))))
     (epochs_script g 0 @ [Plfsdir_finish])"
proof -
  have e: "follows (epochs_loop w g dir 0) (epochs_script g 0)"
    using follows_epochs_loop [of g 0 _ w dir] by simp
  have fr: "follows (seq (call w Plfsdir_free_handle) (\<lambda>u. return ())) []"
    by (intro follows_seq_nil follows_return follows_call_other) simp
  have "follows (seq (call w Plfsdir_finish)
         (\<lambda>r. if r \<noteq> 0 then complain ''error finalizing dir: %s''
            else seq (call w Plfsdir_free_handle) (\<lambda>u. return ())))
        ([Plfsdir_finish] @ [])"
    using follows_call [of w Plfsdir_finish] fr
    by (intro follows_seq) (simp_all add: follows_complain)
  then have fi: "follows (seq (call w Plfsdir_finish)
         (\<lambda>r. if r \<noteq> 0 then complain ''error finalizing dir: %s''
            else seq (call w Plfsdir_free_handle) (\<lambda>u. return ())))
        [Plfsdir_finish]"
    by simp
  show ?thesis by (rule follows_seq) (rule e, rule fi)
qed

lemma follows_write_dir: "follows (write_dir w g) (epochs_script g 0 @ [Plfsdir_finish])"
  unfolding write_dir_def
  apply (rule follows_seq_nil)
   apply (simp add: follows_mkbbos follows_return)
  apply (rule follows_seq_nil)
   apply (rule follows_mkconf)
  apply (simp only: split_paired_all prod.case)
  apply (rule follows_seq_nil)
   apply (rule follows_call_other, simp)
  apply (rule follows_seq_nil)
   apply (rule follows_call_other, simp)
  apply (rule follows_seq_nil)
   apply (simp add: follows_call_other follows_return)
  apply (rule follows_seq_nil)
   apply (simp add: follows_call_other follows_return)
  apply (rule follows_seq_nil)
   apply (rule follows_call_other, simp)
  apply (rule follows_if)
   apply (rule follows_complain)
  apply (rule follows_session_tail)
  done

subsection \<open>Runs in which nothing fails\<close>

lemma succeeds_return: "P x \<Longrightarrow> succeeds (return x) P"
  by (simp add: succeeds_def return_def)

lemma succeeds_seq:
  "succeeds m P \<Longrightarrow> (\<And>x. P x \<Longrightarrow> succeeds (f x) Q) \<Longrightarrow> succeeds (seq m f) Q"
  unfolding succeeds_def seq_def
proof
  fix tr
  assume m: "\<forall>tr. \<exists>x t. m tr = Cont x t \<and> P x"
    and f: "\<And>x. P x \<Longrightarrow> \<forall>tr. \<exists>y t. f x tr = Cont y t \<and> Q y"
  from m obtain x t where x: "m tr = Cont x t" "P x" by blast
  from f [OF x(2)] obtain y t' where "f x t = Cont y t'" "Q y" by blast
  with x show "\<exists>y t'. (case m tr of Stop e t \<Rightarrow> Stop e t | Cont x t \<Rightarrow> f x t) = Cont y t' \<and> Q y"
    by simp
qed

lemma succeeds_if:
  "(c \<Longrightarrow> succeeds p P) \<Longrightarrow> (\<not> c \<Longrightarrow> succeeds q P) \<Longrightarrow> succeeds (if c then p else q) P"
  by simp

lemma succeeds_call_status:
  "no_failures w \<Longrightarrow> \<not> returns_handle c \<Longrightarrow> succeeds (call w c) (\<lambda>r. r = 0)"
  by (simp add: succeeds_def call_def no_failures_def)

lemma succeeds_call_handle:
  "no_failures w \<Longrightarrow> returns_handle c \<Longrightarrow> succeeds (call w c) (\<lambda>r. r \<noteq> 0)"
  by (simp add: succeeds_def call_def no_failures_def)

lemma succeeds_call_any: "succeeds (call w c) (\<lambda>r. True)"
  by (simp add: succeeds_def call_def)

lemma succeeds_writekey:
  assumes "no_failures w" "ndebug w \<or> dir \<noteq> 0"
  shows "succeeds (writekey w g dir k e v) (\<lambda>u. True)"
proof -
  have "succeeds (seq (call w (Plfsdir_append (mkfname k (myrank g)) e v))
             (\<lambda>r. if r \<noteq> 0 then complain ''error writing %s: %s'' else return ()))
          (\<lambda>u. True)"
    by (rule succeeds_seq [OF succeeds_call_status [OF assms(1)]])
       (simp_all add: succeeds_return)
  with assms(2) show ?thesis by (auto simp: writekey_def)
qed

lemma succeeds_keys_loop:
  assumes "no_failures w" "ndebug w \<or> dir \<noteq> 0"
  shows "nat (sint (nkeys g) - sint i) = d \<Longrightarrow>
    succeeds (keys_loop w g dir e v i) (\<lambda>u. True)"
proof (induction d arbitrary: i)
  case 0
  then have "\<not> i <s nkeys g" by (simp add: word_sless_alt)
  then show ?case by (simp add: keys_loop_done succeeds_return)
next
  case (Suc d)
  then have lt: "i <s nkeys g" by (simp add: word_sless_alt)
  have s: "sint (i + 1) = sint i + 1" using lt by (rule sint_succ)
  have "succeeds (keys_loop w g dir e v (i + 1)) (\<lambda>u. True)"
    using Suc.prems s by (intro Suc.IH) simp
  then have "succeeds (seq (writekey w g dir i e v) (\<lambda>u. keys_loop w g dir e v (i + 1)))
      (\<lambda>u. True)"
    by (intro succeeds_seq [OF succeeds_writekey [OF assms]])
  then show ?case by (simp add: keys_loop_step [OF lt])
qed

lemma succeeds_writepoch:
  assumes "no_failures w" "ndebug w \<or> dir \<noteq> 0" "\<not> valsz g <s 0"
  shows "succeeds (writepoch w g dir e) (\<lambda>u. True)"
proof -
  let ?v = "replicate (nat (sint (valsz g))) CHR ''.''"
  have fl: "succeeds (seq (call w (Plfsdir_epoch_flush e))
                 (\<lambda>r. if r \<noteq> 0 then complain ''error flushing dir: %s'' else return ()))
             (\<lambda>u. True)"
    by (rule succeeds_seq [OF succeeds_call_status [OF assms(1)]])
       (simp_all add: succeeds_return)
  have ba: "succeeds (seq (call w MPI_Barrier)
            (\<lambda>r. if r \<noteq> 0 then complain ''fail to do mpi barrier''
               else seq (call w (Plfsdir_epoch_flush e))
                 (\<lambda>r. if r \<noteq> 0 then complain ''error flushing dir: %s''
                    else return ())))
             (\<lambda>u. True)"
    by (rule succeeds_seq [OF succeeds_call_status [OF assms(1)]])
       (simp_all add: fl)
  have "succeeds (seq (keys_loop w g dir e ?v 0)
          (\<lambda>u. seq (call w MPI_Barrier)
            (\<lambda>r. if r \<noteq> 0 then complain ''fail to do mpi barrier''
               else seq (call w (Plfsdir_epoch_flush e))
                 (\<lambda>r. if r \<noteq> 0 then complain ''error flushing dir: %s''
                    else return ()))))
          (\<lambda>u. True)"
    by (rule succeeds_seq [OF succeeds_keys_loop [OF assms(1,2) refl]]) (rule ba)
  with assms(2,3) show ?thesis by (auto simp: writepoch_def)
qed

lemma succeeds_epochs_loop:
  assumes "no_failures w" "ndebug w \<or> dir \<noteq> 0" "\<not> valsz g <s 0"
  shows "nat (sint (nepochs g) - sint e) = d \<Longrightarrow>
    succeeds (epochs_loop w g dir e) (\<lambda>u. True)"
proof (induction d arbitrary: e)
  case 0
  then have "\<not> e <s nepochs g" by (simp add: word_sless_alt)
  then show ?case by (simp add: epochs_loop_done succeeds_return)
next
  case (Suc d)
  then have lt: "e <s nepochs g" by (simp add: word_sless_alt)
  have s: "sint (e + 1) = sint e + 1" using lt by (rule sint_succ)
  have "succeeds (epochs_loop w g dir (e + 1)) (\<lambda>u. True)"
    using Suc.prems s by (intro Suc.IH) simp
  then have "succeeds (seq (writepoch w g dir e) (\<lambda>u. epochs_loop w g dir (e + 1)))
      (\<lambda>u. True)"
    by (intro succeeds_seq [OF succeeds_writepoch [OF assms]])
  then show ?case by (simp add: epochs_loop_step [OF lt])
qed

lemma succeeds_mkbbos:
  "no_failures w \<Longrightarrow> succeeds (mkbbos w g env) (\<lambda>r. True)"
  unfolding mkbbos_def Let_def
  apply (rule succeeds_if)
   apply (rule succeeds_return, simp)
  apply (rule succeeds_seq)
   apply (erule succeeds_call_handle, simp)
  apply (simp add: succeeds_return)
  done

lemma succeeds_mkconf:
  "no_failures w \<Longrightarrow> succeeds (mkconf w g 0) (\<lambda>r. True)"
  unfolding mkconf_def mkconf_cf_eq sum.case
  apply (cases "bg g = 0")
   apply (simp add: succeeds_seq [OF succeeds_return [of "\<lambda>r. True"]] succeeds_return)
  apply simp
  apply (rule succeeds_seq)
   apply (erule succeeds_call_handle, simp)
  apply (simp add: succeeds_return)
  done

lemma succeeds_session_tail:
  assumes "no_failures w" "dir \<noteq> 0" "\<not> valsz g <s 0"
  shows "succeeds (seq (epochs_loop w g dir 0)
       (\<lambda>u. seq (call w Plfsdir_finish)
         (\<lambda>r. if r \<noteq> 0 then complain ''error finalizing dir: %s''
            else seq (call w Plfsdir_free_handle) (\<lambda>u. return ()))))
     (\<lambda>u. True)"
proof -
  have d: "ndebug w \<or> dir \<noteq> 0" using assms(2) by simp
  have fr: "succeeds (seq (call w Plfsdir_free_handle) (\<lambda>u. return ())) (\<lambda>u. True)"
    by (rule succeeds_seq [OF succeeds_call_any]) (simp add: succeeds_return)
  have fi: "succeeds (seq (call w Plfsdir_finish)
         (\<lambda>r. if r \<noteq> 0 then complain ''error finalizing dir: %s''
            else seq (call w Plfsdir_free_handle) (\<lambda>u. return ())))
        (\<lambda>u. True)"
    by (rule succeeds_seq [OF succeeds_call_status [OF assms(1)]]) (simp_all add: fr)
  show ?thesis
    by (rule succeeds_seq [OF succeeds_epochs_loop [OF assms(1) d assms(3) refl]]) (rule fi)
qed

lemma succeeds_write_dir:
  assumes nf: "no_failures w" and v: "\<not> valsz g <s 0"
  shows "succeeds (write_dir w g) (\<lambda>u. True)"
  unfolding write_dir_def
  apply (rule succeeds_seq [where P = "\<lambda>r. True"])
   apply (simp add: succeeds_mkbbos [OF nf] succeeds_return)
  apply (rule succeeds_seq [OF succeeds_mkconf [OF nf]])
  apply (simp only: split_paired_all prod.case)
  apply (rule succeeds_seq [OF succeeds_call_handle [OF nf]])
   apply simp
  apply (rule succeeds_seq [OF succeeds_call_any])
  apply (rule succeeds_seq [where P = "\<lambda>r. True"])
   apply (simp add: succeeds_call_any succeeds_return)
  apply (rule succeeds_seq [where P = "\<lambda>r. True"])
   apply (simp add: succeeds_call_any succeeds_return)
  apply (rule succeeds_seq [OF succeeds_call_status [OF nf]])
   apply simp
  apply (simp add: succeeds_session_tail [OF nf _ v])
  done

subsection \<open>Order of appends and flushes\<close>

lemma added_by_follows:
  assumes "follows p S"
  shows "trace_of (p tr) = tr @ added_by p tr"
    and "prefix (filter session_call (added_by p tr)) S"
    and "returned (p tr) \<Longrightarrow> filter session_call (added_by p tr) = S"
proof -
  from assms obtain a where a: "trace_of (p tr) = tr @ a"
    "prefix (filter session_call a) S"
    "returned (p tr) \<longrightarrow> filter session_call a = S"
    unfolding follows_def by blast
  then have "added_by p tr = a" by (simp add: added_by_def)
  with a show "trace_of (p tr) = tr @ added_by p tr"
    and "prefix (filter session_call (added_by p tr)) S"
    and "returned (p tr) \<Longrightarrow> filter session_call (added_by p tr) = S"
    by simp_all
qed

lemma epoch_calls_members:
  "x \<in> set (epoch_calls g e) \<Longrightarrow>
   x = MPI_Barrier \<or> x = Plfsdir_epoch_flush e \<or> (\<exists>k v. x = Plfsdir_append k e v)"
  by (auto simp: epoch_calls_def key_calls_def)

lemma sorted_epoch_calls: "sorted_wrt in_order (epoch_calls g e)"
  by (auto simp: epoch_calls_def key_calls_def sorted_wrt_append sorted_wrt_map)

lemma in_order_epochs:
  assumes "x \<in> set (epoch_calls g (word_of_nat n))" "y \<in> set (epoch_calls g (word_of_nat m))"
    "n < m" "m < 2 ^ 31"
  shows "in_order x y"
proof -
  have "sint (word_of_nat n :: cint) = int n" "sint (word_of_nat m :: cint) = int m"
    using assms(3,4) by (simp_all add: sint_word_of_nat)
  then have lt: "(word_of_nat n :: cint) <s word_of_nat m" "(word_of_nat n :: cint) \<le>s word_of_nat m"
    using assms(3) by (simp_all add: word_sless_alt word_sle_eq)
  from epoch_calls_members [OF assms(1)] epoch_calls_members [OF assms(2)] lt
  show ?thesis by (elim disjE exE) simp_all
qed

lemma sorted_epochs:
  "sorted_wrt (<) ns \<Longrightarrow> \<forall>n\<in>set ns. n < 2 ^ 31 \<Longrightarrow>
   sorted_wrt in_order (concat (map (\<lambda>n. epoch_calls g (word_of_nat n)) ns))"
proof (induction ns)
  case Nil
  then show ?case by simp
next
  case (Cons n ns)
  have "\<And>x y. x \<in> set (epoch_calls g (word_of_nat n)) \<Longrightarrow>
      y \<in> set (concat (map (\<lambda>n. epoch_calls g (word_of_nat n)) ns)) \<Longrightarrow> in_order x y"
  proof -
    fix x y
    assume x: "x \<in> set (epoch_calls g (word_of_nat n))"
      and "y \<in> set (concat (map (\<lambda>n. epoch_calls g (word_of_nat n)) ns))"
    then obtain m where m: "m \<in> set ns" "y \<in> set (epoch_calls g (word_of_nat m))"
      by auto
    with Cons.prems have "n < m" "m < 2 ^ 31" by auto
    with x m(2) show "in_order x y" by (rule in_order_epochs)
  qed
  with Cons show ?case
    by (simp add: sorted_wrt_append sorted_epoch_calls)
qed

lemma sorted_script: "sorted_wrt in_order (epochs_script g j @ [Plfsdir_finish])"
proof -
  have "nat (sint (nepochs g)) \<le> 2 ^ 31" using sint_lt [of "nepochs g"] by simp
  then have "\<forall>n\<in>set [j..<nat (sint (nepochs g))]. n < 2 ^ 31" by auto
  then have "sorted_wrt in_order (epochs_script g j)"
    unfolding epochs_script_def by (intro sorted_epochs) simp_all
  moreover have "\<And>x. in_order x Plfsdir_finish" by (case_tac x) simp_all
  ultimately show ?thesis by (simp add: sorted_wrt_append)
qed

lemma in_order_other: "\<not> session_call x \<or> \<not> session_call y \<Longrightarrow> in_order x y"
  by (cases x; cases y) simp_all

lemma sorted_wrt_unfiltered:
  "sorted_wrt in_order (filter session_call xs) \<Longrightarrow> sorted_wrt in_order xs"
proof (induction xs)
  case Nil
  then show ?case by simp
next
  case (Cons x xs)
  show ?case
  proof (cases "session_call x")
    case True
    with Cons.prems have s: "sorted_wrt in_order (filter session_call xs)"
      and h: "\<forall>y\<in>set (filter session_call xs). in_order x y" by simp_all
    have "\<forall>y\<in>set xs. in_order x y"
    proof
      fix y assume "y \<in> set xs"
      then show "in_order x y" using h in_order_other [of x y]
        by (cases "session_call y") simp_all
    qed
    with Cons.IH [OF s] show ?thesis by simp
  next
    case False
    with Cons.prems have "sorted_wrt in_order (filter session_call xs)" by simp
    with Cons.IH False show ?thesis by (simp add: in_order_other)
  qed
qed

lemma sorted_wrt_prefix: "prefix xs ys \<Longrightarrow> sorted_wrt P ys \<Longrightarrow> sorted_wrt P xs"
  by (auto simp: prefix_def sorted_wrt_append)

lemma sorted_added_by_write_dir: "sorted_wrt in_order (added_by (write_dir w g) tr)"
  by (rule sorted_wrt_unfiltered)
     (rule sorted_wrt_prefix [OF added_by_follows(2) [OF follows_write_dir] sorted_script])

text \<open>
  C1. Whatever the environment returns, the session calls \<^verbatim>\<open>write()\<close> makes are an
  initial part of: for each epoch from 0 to \<^verbatim>\<open>g.nepochs - 1\<close> in turn, the
  \<^verbatim>\<open>g.nkeys\<close> appends tagged with that epoch, one barrier, the flush of that epoch;
  then the finish. They are all of it when \<^verbatim>\<open>write()\<close> returns. Hence wherever
  an epoch \<open>e1\<close> is flushed, every append made before the flush is for an epoch up to
  \<open>e1\<close> and every append made after it is for a later epoch: the appends of \<open>e1\<close>
  precede its flush, which precedes the appends of every later epoch.
\<close>

theorem write_epoch_protocol:
  "prefix (filter session_call (added_by (write_dir w g) tr))
      (epochs_script g 0 @ [Plfsdir_finish])
   \<and> (returned (write_dir w g tr) \<longrightarrow>
        filter session_call (added_by (write_dir w g) tr)
          = epochs_script g 0 @ [Plfsdir_finish])
   \<and> (\<forall>xs e1 ys. added_by (write_dir w g) tr = xs @ Plfsdir_epoch_flush e1 # ys \<longrightarrow>
        (\<forall>k e v. Plfsdir_append k e v \<in> set xs \<longrightarrow> e \<le>s e1)
        \<and> (\<forall>k e v. Plfsdir_append k e v \<in> set ys \<longrightarrow> e1 <s e))"
proof (intro conjI allI impI)
  show "prefix (filter session_call (added_by (write_dir w g) tr))
      (epochs_script g 0 @ [Plfsdir_finish])"
    by (rule added_by_follows(2) [OF follows_write_dir])
next
  assume "returned (write_dir w g tr)"
  then show "filter session_call (added_by (write_dir w g) tr)
      = epochs_script g 0 @ [Plfsdir_finish]"
    by (rule added_by_follows(3) [OF follows_write_dir])
next
  fix xs e1 ys k e v
  assume eq: "added_by (write_dir w g) tr = xs @ Plfsdir_epoch_flush e1 # ys"
    and mem: "Plfsdir_append k e v \<in> set xs"
  from sorted_added_by_write_dir [of w g tr] eq
  have "\<forall>x\<in>set xs. in_order x (Plfsdir_epoch_flush e1)"
    by (simp add: sorted_wrt_append)
  with mem have "in_order (Plfsdir_append k e v) (Plfsdir_epoch_flush e1)" by blast
  then show "e \<le>s e1" by simp
next
  fix xs e1 ys k e v
  assume eq: "added_by (write_dir w g) tr = xs @ Plfsdir_epoch_flush e1 # ys"
    and mem: "Plfsdir_append k e v \<in> set ys"
  from sorted_added_by_write_dir [of w g tr] eq
  have "\<forall>y\<in>set ys. in_order (Plfsdir_epoch_flush e1) y"
    by (simp add: sorted_wrt_append)
  with mem have "in_order (Plfsdir_epoch_flush e1) (Plfsdir_append k e v)" by blast
  then show "e1 <s e" by simp
qed

subsection \<open>Evaluating runs\<close>

lemma keys_loop_unfold:
  "i <s nkeys g \<Longrightarrow> keys_loop w g dir e v i tr =
     (case writekey w g dir i e v tr of Stop x t \<Rightarrow> Stop x t
      | Cont u t \<Rightarrow> keys_loop w g dir e v (i + 1) t)"
  "\<not> i <s nkeys g \<Longrightarrow> keys_loop w g dir e v i tr = Cont () tr"
  by (simp_all add: keys_loop.simps [of w g dir e v i tr])

lemma epochs_loop_unfold:
  "e <s nepochs g \<Longrightarrow> epochs_loop w g dir e tr =
     (case writepoch w g dir e tr of Stop x t \<Rightarrow> Stop x t
      | Cont u t \<Rightarrow> epochs_loop w g dir (e + 1) t)"
  "\<not> e <s nepochs g \<Longrightarrow> epochs_loop w g dir e tr = Cont () tr"
  by (simp_all add: epochs_loop.simps [of w g dir e tr])

lemmas run_simps = write_dir_def seq_def call_def return_def complain_def usage_def abort_def
  mkbbos_def mkconf_def mkconf_cf_eq conf_pieces_def defaults_def fmt_d_def utoa_small utoa_big
  xdigit_def keys_loop_unfold epochs_loop_unfold writepoch_def writekey_def mkfname_def
  snprintf_def fmt_08x_def replicate_num word_sless_alt word_sle_eq

lemma no_failures_calm: "no_failures calm"
  by (simp add: no_failures_def calm_def)

lemma write_dir_scenario_A:
  "write_dir calm scenario_A [] = Cont ()
     [Plfsdir_create_handle
        ''rank=0&tail_padding=1&block_padding=1&data_buffer=2097152&min_data_buffer=2097152&index_buffer=2097152&min_index_buffer=2097152&key_size=8&value_size=4&bf_bits_per_key=10&epoch_log_rotation=0&lg_parts=0'',
      Plfsdir_set_err_printer, Plfsdir_open ''d'',
      Plfsdir_append ''f00000000-r00000000'' 0 ''....'',
      Plfsdir_append ''f00000001-r00000000'' 0 ''....'',
      Plfsdir_append ''f00000002-r00000000'' 0 ''....'',
      Plfsdir_append ''f00000003-r00000000'' 0 ''....'',
      MPI_Barrier, Plfsdir_epoch_flush 0,
      Plfsdir_append ''f00000000-r00000000'' 1 ''....'',
      Plfsdir_append ''f00000001-r00000000'' 1 ''....'',
      Plfsdir_append ''f00000002-r00000000'' 1 ''....'',
      Plfsdir_append ''f00000003-r00000000'' 1 ''....'',
      MPI_Barrier, Plfsdir_epoch_flush 1, Plfsdir_finish, Plfsdir_free_handle]"
  by (simp add: calm_def scenario_A_def run_simps)

text \<open>The run of scenario A: its calls around the flush of epoch 0.\<close>

theorem write_epoch_protocol_witness:
  "returned (write_dir calm scenario_A [])
   \<and> filter session_call (added_by (write_dir calm scenario_A) [])
       = epochs_script scenario_A 0 @ [Plfsdir_finish]
   \<and> added_by (write_dir calm scenario_A) []
       = [Plfsdir_create_handle
        ''rank=0&tail_padding=1&block_padding=1&data_buffer=2097152&min_data_buffer=2097152&index_buffer=2097152&min_index_buffer=2097152&key_size=8&value_size=4&bf_bits_per_key=10&epoch_log_rotation=0&lg_parts=0'',
      Plfsdir_set_err_printer, Plfsdir_open ''d'',
      Plfsdir_append ''f00000000-r00000000'' 0 ''....'',
      Plfsdir_append ''f00000001-r00000000'' 0 ''....'',
      Plfsdir_append ''f00000002-r00000000'' 0 ''....'',
      Plfsdir_append ''f00000003-r00000000'' 0 ''....'',
      MPI_Barrier] @ Plfsdir_epoch_flush 0 #
      [Plfsdir_append ''f00000000-r00000000'' 1 ''....'',
      Plfsdir_append ''f00000001-r00000000'' 1 ''....'',
      Plfsdir_append ''f00000002-r00000000'' 1 ''....'',
      Plfsdir_append ''f00000003-r00000000'' 1 ''....'',
      MPI_Barrier, Plfsdir_epoch_flush 1, Plfsdir_finish, Plfsdir_free_handle]
   \<and> (0::cint) \<le>s 0 \<and> (0::cint) <s 1"
proof -
  let ?xs = "[Plfsdir_create_handle
        ''rank=0&tail_padding=1&block_padding=1&data_buffer=2097152&min_data_buffer=2097152&index_buffer=2097152&min_index_buffer=2097152&key_size=8&value_size=4&bf_bits_per_key=10&epoch_log_rotation=0&lg_parts=0'',
      Plfsdir_set_err_printer, Plfsdir_open ''d'',
      Plfsdir_append ''f00000000-r00000000'' 0 ''....'',
      Plfsdir_append ''f00000001-r00000000'' 0 ''....'',
      Plfsdir_append ''f00000002-r00000000'' 0 ''....'',
      Plfsdir_append ''f00000003-r00000000'' 0 ''....'',
      MPI_Barrier]"
  let ?ys = "[Plfsdir_append ''f00000000-r00000000'' 1 ''....'',
      Plfsdir_append ''f00000001-r00000000'' 1 ''....'',
      Plfsdir_append ''f00000002-r00000000'' 1 ''....'',
      Plfsdir_append ''f00000003-r00000000'' 1 ''....'',
      MPI_Barrier, Plfsdir_epoch_flush 1, Plfsdir_finish, Plfsdir_free_handle]"
  have r: "returned (write_dir calm scenario_A [])"
    by (simp add: write_dir_scenario_A returned_def)
  have a: "added_by (write_dir calm scenario_A) [] = ?xs @ Plfsdir_epoch_flush 0 # ?ys"
    by (simp add: added_by_def trace_of_def write_dir_scenario_A)
  note t = write_epoch_protocol [of calm scenario_A "[]"]
  from t r have 1: "filter session_call (added_by (write_dir calm scenario_A) [])
       = epochs_script scenario_A 0 @ [Plfsdir_finish]" by blast
  from t a have 2: "(\<forall>k e v. Plfsdir_append k e v \<in> set ?xs \<longrightarrow> e \<le>s 0)
        \<and> (\<forall>k e v. Plfsdir_append k e v \<in> set ?ys \<longrightarrow> 0 <s e)" by blast
  from 2 have "(0::cint) \<le>s 0" "(0::cint) <s 1" by simp_all
  with r 1 a show ?thesis by blast
qed

subsection \<open>What is appended\<close>

lemma appended_iff: "(k, v) \<in> set (appended cs) \<longleftrightarrow> (\<exists>e. Plfsdir_append k e v \<in> set cs)"
  by (induction cs rule: appended.induct) auto

lemma script_appends:
  assumes "Plfsdir_append k e v \<in> set (epochs_script g j @ [Plfsdir_finish])"
  shows "v = replicate (nat (sint (valsz g))) CHR ''.''
     \<and> (\<exists>i. k = mkfname i (myrank g))"
  using assms by (auto simp: epochs_script_def epoch_calls_def key_calls_def split: if_splits)

lemma write_dir_appends:
  assumes "(k, v) \<in> set (appended (added_by (write_dir w g) tr))"
  shows "v = replicate (nat (sint (valsz g))) CHR ''.''
     \<and> (\<exists>i. k = mkfname i (myrank g))"
proof -
  from assms obtain e where "Plfsdir_append k e v \<in> set (added_by (write_dir w g) tr)"
    by (auto simp: appended_iff)
  then have "Plfsdir_append k e v \<in> set (filter session_call (added_by (write_dir w g) tr))"
    by simp
  moreover have "set (filter session_call (added_by (write_dir w g) tr))
      \<subseteq> set (epochs_script g 0 @ [Plfsdir_finish])"
    by (rule set_mono_prefix) (rule added_by_follows(2) [OF follows_write_dir])
  ultimately show ?thesis using script_appends by blast
qed

lemma write_dir_completes:
  assumes "no_failures w" "\<not> valsz g <s 0"
  shows "returned (write_dir w g tr)"
    and "filter session_call (added_by (write_dir w g) tr)
          = epochs_script g 0 @ [Plfsdir_finish]"
proof -
  from succeeds_write_dir [OF assms] obtain x t where "write_dir w g tr = Cont x t"
    unfolding succeeds_def by blast
  then show r: "returned (write_dir w g tr)"
    by (simp add: returned_def)
  then show "filter session_call (added_by (write_dir w g) tr)
          = epochs_script g 0 @ [Plfsdir_finish]"
    by (rule added_by_follows(3) [OF follows_write_dir])
qed

lemma seq_returns:
  "seq m f tr = Cont y t \<Longrightarrow> \<exists>x t'. m tr = Cont x t' \<and> f x t' = Cont y t"
  by (auto simp: seq_def split: step.splits)

lemma returns_seq:
  "seq m f tr = Cont y t \<Longrightarrow> (\<And>x t'. f x t' = Cont y t \<Longrightarrow> Q) \<Longrightarrow> Q"
  by (auto simp: seq_def split: step.splits)

lemma write_dir_returns_after_finish:
  "write_dir w g tr = Cont u t \<Longrightarrow>
   \<exists>pre. t = pre @ [Plfsdir_finish, Plfsdir_free_handle] \<and> ret w pre Plfsdir_finish = 0"
  unfolding write_dir_def
  apply (erule returns_seq)
  apply (erule returns_seq)
  apply (simp only: split_paired_all prod.case)
  apply (erule returns_seq)
  apply (erule returns_seq)
  apply (erule returns_seq)
  apply (erule returns_seq)
  apply (erule returns_seq)
  apply (simp add: complain_def split: if_splits)
  apply (erule returns_seq)
  apply (auto simp: seq_def call_def return_def complain_def split: if_splits)
  done

lemma upt_numeral_step:
  "[i..<numeral n] = (if i < numeral n then i # [Suc i..<numeral n] else [])"
  by (rule upt_rec)

lemma epochs_script_scenario_A:
  "nepochs g = 2 \<Longrightarrow> nkeys g = 4 \<Longrightarrow> valsz g = 4 \<Longrightarrow> myrank g = 0 \<Longrightarrow>
   epochs_script g 0 =
     [Plfsdir_append ''f00000000-r00000000'' 0 ''....'',
      Plfsdir_append ''f00000001-r00000000'' 0 ''....'',
      Plfsdir_append ''f00000002-r00000000'' 0 ''....'',
      Plfsdir_append ''f00000003-r00000000'' 0 ''....'',
      MPI_Barrier, Plfsdir_epoch_flush 0,
      Plfsdir_append ''f00000000-r00000000'' 1 ''....'',
      Plfsdir_append ''f00000001-r00000000'' 1 ''....'',
      Plfsdir_append ''f00000002-r00000000'' 1 ''....'',
      Plfsdir_append ''f00000003-r00000000'' 1 ''....'',
      MPI_Barrier, Plfsdir_epoch_flush 1]"
  by (simp add: epochs_script_def epoch_calls_def key_calls_def upt_numeral_step
      mkfname_def snprintf_def fmt_08x_def utoa_small xdigit_def replicate_num)

text \<open>
  C5. With two epochs of four keys, key size 8 and value size 4 on rank 0 of one, and an
  environment in which nothing fails, \<^verbatim>\<open>write()\<close> returns after these session calls:
  four appends tagged 0, the barrier, the flush of epoch 0, four appends tagged 1, the
  barrier, the flush of epoch 1, and the finish, which returned 0 and is the last call
  but for the release of the handle.
\<close>

theorem scenario_A_accounting:
  assumes "no_failures w" "nepochs g = 2" "nkeys g = 4" "keysz g = 8" "valsz g = 4"
    "myrank g = 0" "commsz g = 1"
  shows "\<exists>pre. write_dir w g tr = Cont () (pre @ [Plfsdir_finish, Plfsdir_free_handle])
      \<and> ret w pre Plfsdir_finish = 0
      \<and> filter session_call (added_by (write_dir w g) tr) =
         [Plfsdir_append ''f00000000-r00000000'' 0 ''....'',
          Plfsdir_append ''f00000001-r00000000'' 0 ''....'',
          Plfsdir_append ''f00000002-r00000000'' 0 ''....'',
          Plfsdir_append ''f00000003-r00000000'' 0 ''....'',
          MPI_Barrier, Plfsdir_epoch_flush 0,
          Plfsdir_append ''f00000000-r00000000'' 1 ''....'',
          Plfsdir_append ''f00000001-r00000000'' 1 ''....'',
          Plfsdir_append ''f00000002-r00000000'' 1 ''....'',
          Plfsdir_append ''f00000003-r00000000'' 1 ''....'',
          MPI_Barrier, Plfsdir_epoch_flush 1, Plfsdir_finish]"
proof -
  have v: "\<not> valsz g <s 0" using assms(5) by (simp add: word_sless_alt)
  from write_dir_completes(1) [OF assms(1) v, of tr]
  obtain t where t: "write_dir w g tr = Cont () t"
    by (cases "write_dir w g tr") (simp_all add: returned_def)
  from write_dir_returns_after_finish [OF t]
  obtain pre where "t = pre @ [Plfsdir_finish, Plfsdir_free_handle]"
    "ret w pre Plfsdir_finish = 0" by blast
  with t write_dir_completes(2) [OF assms(1) v, of tr]
    epochs_script_scenario_A [OF assms(2,3,5,6)]
  show ?thesis by simp
qed

theorem scenario_A_accounting_witness:
  "no_failures calm \<and> nepochs scenario_A = 2 \<and> nkeys scenario_A = 4 \<and> keysz scenario_A = 8
   \<and> valsz scenario_A = 4 \<and> myrank scenario_A = 0 \<and> commsz scenario_A = 1
   \<and> (\<exists>pre. write_dir calm scenario_A [] = Cont () (pre @ [Plfsdir_finish, Plfsdir_free_handle])
      \<and> ret calm pre Plfsdir_finish = 0
      \<and> filter session_call (added_by (write_dir calm scenario_A) []) =
         [Plfsdir_append ''f00000000-r00000000'' 0 ''....'',
          Plfsdir_append ''f00000001-r00000000'' 0 ''....'',
          Plfsdir_append ''f00000002-r00000000'' 0 ''....'',
          Plfsdir_append ''f00000003-r00000000'' 0 ''....'',
          MPI_Barrier, Plfsdir_epoch_flush 0,
          Plfsdir_append ''f00000000-r00000000'' 1 ''....'',
          Plfsdir_append ''f00000001-r00000000'' 1 ''....'',
          Plfsdir_append ''f00000002-r00000000'' 1 ''....'',
          Plfsdir_append ''f00000003-r00000000'' 1 ''....'',
          MPI_Barrier, Plfsdir_epoch_flush 1, Plfsdir_finish])"
proof -
  have h: "nepochs scenario_A = 2" "nkeys scenario_A = 4" "keysz scenario_A = 8"
    "valsz scenario_A = 4" "myrank scenario_A = 0" "commsz scenario_A = 1"
    by (simp_all add: scenario_A_def defaults_def calm_def)
  from scenario_A_accounting [OF no_failures_calm h, of "[]"] no_failures_calm h
  show ?thesis by blast
qed

text \<open>
  C8. Every value handed to an append is \<^verbatim>\<open>g.valsz\<close> filler bytes. With
  \<^verbatim>\<open>g.valsz = 0\<close> every value is empty, and in an environment in which nothing fails
  \<^verbatim>\<open>write()\<close> returns, having made all the appends and flushes of every epoch and
  the finish.
\<close>

theorem zero_size_values:
  "(\<forall>(k, v) \<in> set (appended (added_by (write_dir w g) tr)).
        v = replicate (nat (sint (valsz g))) CHR ''.'')
   \<and> (valsz g = 0 \<longrightarrow>
        (\<forall>(k, v) \<in> set (appended (added_by (write_dir w g) tr)). v = [])
        \<and> (no_failures w \<longrightarrow>
             returned (write_dir w g tr)
             \<and> filter session_call (added_by (write_dir w g) tr)
                 = epochs_script g 0 @ [Plfsdir_finish]))"
proof (intro conjI impI)
  show a: "\<forall>(k, v) \<in> set (appended (added_by (write_dir w g) tr)).
        v = replicate (nat (sint (valsz g))) CHR ''.''"
    using write_dir_appends [of _ _ w g tr] by blast
  assume z: "valsz g = 0"
  with a show "\<forall>(k, v) \<in> set (appended (added_by (write_dir w g) tr)). v = []"
    by simp
  assume nf: "no_failures w"
  have v: "\<not> valsz g <s 0" using z by (simp add: word_sless_alt)
  show "returned (write_dir w g tr)" by (rule write_dir_completes(1) [OF nf v])
  show "filter session_call (added_by (write_dir w g) tr)
                 = epochs_script g 0 @ [Plfsdir_finish]"
    by (rule write_dir_completes(2) [OF nf v])
qed

lemma write_dir_scenario_B:
  "write_dir calm scenario_B [] = Cont ()
     [Plfsdir_create_handle
        ''rank=0&tail_padding=1&block_padding=1&data_buffer=2097152&min_data_buffer=2097152&index_buffer=2097152&min_index_buffer=2097152&key_size=8&value_size=0&bf_bits_per_key=10&epoch_log_rotation=0&lg_parts=0'',
      Plfsdir_set_err_printer, Plfsdir_open ''d'',
      Plfsdir_append ''f00000000-r00000000'' 0 [],
      Plfsdir_append ''f00000001-r00000000'' 0 [],
      Plfsdir_append ''f00000002-r00000000'' 0 [],
      Plfsdir_append ''f00000003-r00000000'' 0 [],
      MPI_Barrier, Plfsdir_epoch_flush 0,
      Plfsdir_append ''f00000000-r00000000'' 1 [],
      Plfsdir_append ''f00000001-r00000000'' 1 [],
      Plfsdir_append ''f00000002-r00000000'' 1 [],
      Plfsdir_append ''f00000003-r00000000'' 1 [],
      MPI_Barrier, Plfsdir_epoch_flush 1, Plfsdir_finish, Plfsdir_free_handle]"
  by (simp add: calm_def scenario_B_def scenario_A_def run_simps)

theorem zero_size_values_witness:
  "valsz scenario_B = 0 \<and> no_failures calm
   \<and> appended (added_by (write_dir calm scenario_B) []) =
       [(''f00000000-r00000000'', []), (''f00000001-r00000000'', []),
        (''f00000002-r00000000'', []), (''f00000003-r00000000'', []),
        (''f00000000-r00000000'', []), (''f00000001-r00000000'', []),
        (''f00000002-r00000000'', []), (''f00000003-r00000000'', [])]
   \<and> returned (write_dir calm scenario_B [])
   \<and> filter session_call (added_by (write_dir calm scenario_B) [])
        = epochs_script scenario_B 0 @ [Plfsdir_finish]"
proof -
  have z: "valsz scenario_B = 0" by (simp add: scenario_B_def)
  have a: "appended (added_by (write_dir calm scenario_B) []) =
       [(''f00000000-r00000000'', []), (''f00000001-r00000000'', []),
        (''f00000002-r00000000'', []), (''f00000003-r00000000'', []),
        (''f00000000-r00000000'', []), (''f00000001-r00000000'', []),
        (''f00000002-r00000000'', []), (''f00000003-r00000000'', [])]"
    by (simp add: added_by_def trace_of_def write_dir_scenario_B)
  from zero_size_values [of calm scenario_B "[]"] z no_failures_calm a
  show ?thesis by blast
qed

lemma keys_loop_keysz:
  "keys_loop w (g\<lparr>keysz := x\<rparr>) dir e v i tr = keys_loop w g dir e v i tr"
proof (induction w g dir e v i tr rule: keys_loop.induct)
  case (1 w g dir e v i tr)
  have wk: "writekey w (g\<lparr>keysz := x\<rparr>) dir i e v tr = writekey w g dir i e v tr"
    by (simp add: writekey_def)
  show ?case
  proof (cases "i <s nkeys g")
    case True
    then show ?thesis
      using 1 wk by (simp add: keys_loop_unfold split: step.splits)
  next
    case False
    then show ?thesis by (simp add: keys_loop_unfold)
  qed
qed

text \<open>
  C9. Every key handed to an append is the 19 characters \<^verbatim>\<open>f%08x-r%08x\<close> of an index
  and the rank, whatever \<^verbatim>\<open>g.keysz\<close> is: changing \<^verbatim>\<open>g.keysz\<close> changes nothing in what
  an epoch writes nor in the calls a session is to make, and in the configuration
  string it changes the \<^verbatim>\<open>key_size\<close> field alone.
\<close>

theorem appended_keys_fixed_width:
  "(\<forall>(k, v) \<in> set (appended (added_by (write_dir w g) tr)).
        length k = 19 \<and> (\<exists>i. k = ''f'' @ fmt_08x i @ ''-r'' @ fmt_08x (myrank g)))
   \<and> writepoch w (g\<lparr>keysz := x\<rparr>) dir e tr = writepoch w g dir e tr
   \<and> epochs_script (g\<lparr>keysz := x\<rparr>) 0 = epochs_script g 0
   \<and> conf_pieces (g\<lparr>keysz := x\<rparr>) = (conf_pieces g)[6 := ''&key_size='' @ fmt_d x]"
proof (intro conjI)
  show "\<forall>(k, v) \<in> set (appended (added_by (write_dir w g) tr)).
        length k = 19 \<and> (\<exists>i. k = ''f'' @ fmt_08x i @ ''-r'' @ fmt_08x (myrank g))"
  proof (clarify, rule conjI)
    fix k v assume "(k, v) \<in> set (appended (added_by (write_dir w g) tr))"
    then obtain i where k: "k = mkfname i (myrank g)"
      using write_dir_appends by blast
    then show "length k = 19" by (simp add: mkfname_length)
    from k show "\<exists>i. k = ''f'' @ fmt_08x i @ ''-r'' @ fmt_08x (myrank g)"
      by (auto simp: mkfname_eq)
  qed
  show "writepoch w (g\<lparr>keysz := x\<rparr>) dir e tr = writepoch w g dir e tr"
    by (simp add: writepoch_def seq_def keys_loop_keysz)
  show "epochs_script (g\<lparr>keysz := x\<rparr>) 0 = epochs_script g 0"
    by (simp add: epochs_script_def epoch_calls_def key_calls_def)
  show "conf_pieces (g\<lparr>keysz := x\<rparr>) = (conf_pieces g)[6 := ''&key_size='' @ fmt_d x]"
    by (simp add: conf_pieces_def)
qed

lemma write_dir_scenario_K:
  "write_dir calm scenario_K [] = Cont ()
     [Plfsdir_create_handle
        ''rank=0&tail_padding=1&block_padding=1&data_buffer=2097152&min_data_buffer=2097152&index_buffer=2097152&min_index_buffer=2097152&key_size=100&value_size=4&bf_bits_per_key=10&epoch_log_rotation=0&lg_parts=0'',
      Plfsdir_set_err_printer, Plfsdir_open ''d'',
      Plfsdir_append ''f00000000-r00000000'' 0 ''....'',
      Plfsdir_append ''f00000001-r00000000'' 0 ''....'',
      Plfsdir_append ''f00000002-r00000000'' 0 ''....'',
      Plfsdir_append ''f00000003-r00000000'' 0 ''....'',
      MPI_Barrier, Plfsdir_epoch_flush 0,
      Plfsdir_append ''f00000000-r00000000'' 1 ''....'',
      Plfsdir_append ''f00000001-r00000000'' 1 ''....'',
      Plfsdir_append ''f00000002-r00000000'' 1 ''....'',
      Plfsdir_append ''f00000003-r00000000'' 1 ''....'',
      MPI_Barrier, Plfsdir_epoch_flush 1, Plfsdir_finish, Plfsdir_free_handle]"
  by (simp add: calm_def scenario_K_def scenario_A_def run_simps)

theorem appended_keys_fixed_width_witness:
  "keysz scenario_K = 100
   \<and> map fst (appended (added_by (write_dir calm scenario_K) [])) =
       [''f00000000-r00000000'', ''f00000001-r00000000'',
        ''f00000002-r00000000'', ''f00000003-r00000000'',
        ''f00000000-r00000000'', ''f00000001-r00000000'',
        ''f00000002-r00000000'', ''f00000003-r00000000'']
   \<and> map fst (appended (added_by (write_dir calm scenario_K) []))
       = map fst (appended (added_by (write_dir calm scenario_A) []))
   \<and> map (length \<circ> fst) (appended (added_by (write_dir calm scenario_K) []))
       = [19, 19, 19, 19, 19, 19, 19, 19]
   \<and> epochs_script scenario_K 0 = epochs_script scenario_A 0"
proof -
  have a: "map fst (appended (added_by (write_dir calm scenario_K) [])) =
       [''f00000000-r00000000'', ''f00000001-r00000000'',
        ''f00000002-r00000000'', ''f00000003-r00000000'',
        ''f00000000-r00000000'', ''f00000001-r00000000'',
        ''f00000002-r00000000'', ''f00000003-r00000000'']"
    by (simp add: added_by_def trace_of_def write_dir_scenario_K)
  have b: "map fst (appended (added_by (write_dir calm scenario_A) [])) =
       [''f00000000-r00000000'', ''f00000001-r00000000'',
        ''f00000002-r00000000'', ''f00000003-r00000000'',
        ''f00000000-r00000000'', ''f00000001-r00000000'',
        ''f00000002-r00000000'', ''f00000003-r00000000'']"
    by (simp add: added_by_def trace_of_def write_dir_scenario_A)
  have k: "keysz scenario_K = 100" by (simp add: scenario_K_def)
  have l: "map (length \<circ> fst) (appended (added_by (write_dir calm scenario_K) []))
       = map length (map fst (appended (added_by (write_dir calm scenario_K) [])))"
    by simp
  from appended_keys_fixed_width [of calm scenario_A "[]" 100]
  have "epochs_script scenario_K 0 = epochs_script scenario_A 0"
    unfolding scenario_K_def by blast
  with a b k show ?thesis unfolding l by simp
qed

subsection \<open>Calls and endings of \<^verbatim>\<open>write()\<close>\<close>



















subsection \<open>main\<close>

lemma main_prog_unfold:
  "main_prog w opts args [] =
   (if ret w [] MPI_Init \<noteq> 0
    then Stop (Exited 1 (Some (Error_msg ''fail to init mpi''))) [MPI_Init]
    else if ret w [MPI_Init] MPI_Comm_rank \<noteq> 0
    then Stop (Exited 1 (Some (Error_msg ''cannot get proc mpi rank''))) [MPI_Init, MPI_Comm_rank]
    else if ret w [MPI_Init, MPI_Comm_rank] MPI_Comm_size \<noteq> 0
    then Stop (Exited 1 (Some (Error_msg ''cannot get mpi world size'')))
           [MPI_Init, MPI_Comm_rank, MPI_Comm_size]
    else (case getopt_loop opts (defaults w) [MPI_Init, MPI_Comm_rank, MPI_Comm_size] of
            Stop e t \<Rightarrow> Stop e t
          | Cont g t \<Rightarrow>
             (case positional args g t of
                Stop e t \<Rightarrow> Stop e t
              | Cont g t \<Rightarrow>
                 (case write_dir w g (t @ [Signal_SIGALRM, Alarm (timeout g), MPI_Barrier]) of
                    Stop e t \<Rightarrow> Stop e t
                  | Cont u t \<Rightarrow> Stop (Exited 0 None) (t @ [MPI_Finalize])))))"
  by (simp add: main_prog_def seq_def call_def complain_def split: step.splits)

lemma getopt_loop_trace:
  "getopt_loop opts g tr = Stop e t \<Longrightarrow> t = tr \<and> (\<exists>m. e = Exited 1 (Some (Usage_msg m)))"
  "getopt_loop opts g tr = Cont g' t \<Longrightarrow> t = tr"
  by (induction opts g arbitrary: tr rule: getopt_loop.induct;
      auto simp: return_def usage_def split: sum.splits)+






subsection \<open>Endings of main\<close>






lemma positional_bad_port:
  "2 < length args \<Longrightarrow> atoi (args ! 2) \<le>s 0 \<Longrightarrow>
   positional args g tr = Stop (Exited 1 (Some (Usage_msg (Some ''bad bbos port'')))) tr"
  by (auto simp: positional_def usage_def Let_def)

lemma atoi_examples:
  "atoi ''0'' = 0" "atoi ''1'' = 1" "atoi ''2'' = 2" "atoi ''-5'' = -5" "atoi '' 42abc'' = 42"
  by (simp_all add: atoi_def isspace_def isdigit_def digits_value_def)




text \<open>
  C10. When a third positional argument is given and \<^verbatim>\<open>atoi\<close> of it is not positive,
  \<^verbatim>\<open>main\<close> ends in \<^verbatim>\<open>usage\<close> with status 1 right after the MPI set-up, whatever the
  options are; when the options are accepted the message is \<^verbatim>\<open>bad bbos port\<close>. The
  check of the port does not look at \<^verbatim>\<open>g.bbos\<close>: it rejects the port for any globals.
\<close>

theorem port_checked_unconditionally:
  assumes "2 < length args" "atoi (args ! 2) \<le>s 0"
    "ret w [] MPI_Init = 0" "ret w [MPI_Init] MPI_Comm_rank = 0"
    "ret w [MPI_Init, MPI_Comm_rank] MPI_Comm_size = 0"
  shows "(\<exists>m. main w opts args
            = (Exited 1 (Some (Usage_msg m)), [MPI_Init, MPI_Comm_rank, MPI_Comm_size]))
     \<and> (\<forall>g. getopt_loop opts (defaults w) [MPI_Init, MPI_Comm_rank, MPI_Comm_size]
              = Cont g [MPI_Init, MPI_Comm_rank, MPI_Comm_size]
           \<longrightarrow> main w opts args
              = (Exited 1 (Some (Usage_msg (Some ''bad bbos port''))),
                 [MPI_Init, MPI_Comm_rank, MPI_Comm_size]))
     \<and> positional args g tr = Stop (Exited 1 (Some (Usage_msg (Some ''bad bbos port'')))) tr"
proof (intro conjI allI impI)
  note p = positional_bad_port [OF assms(1,2)]
  show "positional args g tr = Stop (Exited 1 (Some (Usage_msg (Some ''bad bbos port'')))) tr"
    by (rule p)
  show "\<exists>m. main w opts args
            = (Exited 1 (Some (Usage_msg m)), [MPI_Init, MPI_Comm_rank, MPI_Comm_size])"
  proof (cases "getopt_loop opts (defaults w) [MPI_Init, MPI_Comm_rank, MPI_Comm_size]")
    case (Stop e t)
    with getopt_loop_trace(1) [OF Stop] assms(3-5) show ?thesis
      by (auto simp: main_def main_prog_unfold)
  next
    case (Cont g' t)
    with getopt_loop_trace(2) [OF Cont] assms(3-5) p show ?thesis
      by (simp add: main_def main_prog_unfold)
  qed
  fix g'
  assume "getopt_loop opts (defaults w) [MPI_Init, MPI_Comm_rank, MPI_Comm_size]
              = Cont g' [MPI_Init, MPI_Comm_rank, MPI_Comm_size]"
  with assms(3-5) p show "main w opts args
              = (Exited 1 (Some (Usage_msg (Some ''bad bbos port''))),
                 [MPI_Init, MPI_Comm_rank, MPI_Comm_size])"
    by (simp add: main_def main_prog_unfold)
qed

theorem port_checked_unconditionally_witness:
  "2 < length [''d'', ''host'', ''0''] \<and> atoi ([''d'', ''host'', ''0''] ! 2) \<le>s 0
   \<and> ret calm [] MPI_Init = 0 \<and> ret calm [MPI_Init] MPI_Comm_rank = 0
   \<and> ret calm [MPI_Init, MPI_Comm_rank] MPI_Comm_size = 0
   \<and> getopt_loop [] (defaults calm) [MPI_Init, MPI_Comm_rank, MPI_Comm_size]
       = Cont (defaults calm) [MPI_Init, MPI_Comm_rank, MPI_Comm_size]
   \<and> bbos (defaults calm) = 0
   \<and> main calm [] [''d'', ''host'', ''0'']
       = (Exited 1 (Some (Usage_msg (Some ''bad bbos port''))),
          [MPI_Init, MPI_Comm_rank, MPI_Comm_size])"
proof -
  have h: "2 < length [''d'', ''host'', ''0'']" "atoi ([''d'', ''host'', ''0''] ! 2) \<le>s 0"
    "ret calm [] MPI_Init = 0" "ret calm [MPI_Init] MPI_Comm_rank = 0"
    "ret calm [MPI_Init, MPI_Comm_rank] MPI_Comm_size = 0"
    by (simp_all add: atoi_examples calm_def word_sle_eq)
  have g: "getopt_loop [] (defaults calm) [MPI_Init, MPI_Comm_rank, MPI_Comm_size]
       = Cont (defaults calm) [MPI_Init, MPI_Comm_rank, MPI_Comm_size]"
    by (simp add: return_def)
  have b: "bbos (defaults calm) = 0" by (simp add: defaults_def)
  from port_checked_unconditionally [OF h, of "[]"] g
  have "main calm [] [''d'', ''host'', ''0'']
       = (Exited 1 (Some (Usage_msg (Some ''bad bbos port''))),
          [MPI_Init, MPI_Comm_rank, MPI_Comm_size])"
    by blast
  with h g b show ?thesis by blast
qed

subsection \<open>Runs under the clock\<close>























subsection \<open>Exit status\<close>

subsection \<open>Exit status 0 only when every tested call succeeded\<close>























lemma getopt_e1_n1:
  "getopt_loop [(CHR ''e'', ''1''), (CHR ''n'', ''1'')] (defaults w) tr
     = Cont ((defaults w)\<lparr>nepochs := 1, nkeys := 1\<rparr>) tr"
  by (simp add: switch_ch_def atoi_examples return_def word_sless_alt)



text \<open>
  \<^verbatim>\<open>main\<close> ignores the results of its own \<^verbatim>\<open>MPI_Barrier\<close> and of
  \<^verbatim>\<open>MPI_Finalize\<close>: when only these two fail, the run still ends with status 0.
\<close>

lemma main_unchecked_mpi:
  "ret unchecked_mpi [MPI_Init, MPI_Comm_rank, MPI_Comm_size, Signal_SIGALRM, Alarm 300]
     MPI_Barrier = 1
   \<and> main unchecked_mpi [(CHR ''e'', ''1''), (CHR ''n'', ''1'')] [''d'']
     = (Exited 0 None,
        [MPI_Init, MPI_Comm_rank, MPI_Comm_size, Signal_SIGALRM, Alarm 300, MPI_Barrier,
         Plfsdir_create_handle
           ''rank=0&tail_padding=1&block_padding=1&data_buffer=2097152&min_data_buffer=2097152&index_buffer=2097152&min_index_buffer=2097152&key_size=8&value_size=32&bf_bits_per_key=10&epoch_log_rotation=0&lg_parts=0'',
         Plfsdir_set_err_printer, Plfsdir_open ''d'',
         Plfsdir_append ''f00000000-r00000000'' 0 ''................................'',
         MPI_Barrier, Plfsdir_epoch_flush 0, Plfsdir_finish, Plfsdir_free_handle,
         MPI_Finalize])
   \<and> ret unchecked_mpi
        [MPI_Init, MPI_Comm_rank, MPI_Comm_size, Signal_SIGALRM, Alarm 300, MPI_Barrier,
         Plfsdir_create_handle
           ''rank=0&tail_padding=1&block_padding=1&data_buffer=2097152&min_data_buffer=2097152&index_buffer=2097152&min_index_buffer=2097152&key_size=8&value_size=32&bf_bits_per_key=10&epoch_log_rotation=0&lg_parts=0'',
         Plfsdir_set_err_printer, Plfsdir_open ''d'',
         Plfsdir_append ''f00000000-r00000000'' 0 ''................................'',
         MPI_Barrier, Plfsdir_epoch_flush 0, Plfsdir_finish, Plfsdir_free_handle]
        MPI_Finalize = 1"
  unfolding main_def main_prog_unfold getopt_e1_n1
  by (simp add: unchecked_mpi_def positional_def run_simps)





end
